theory Spec2Isabelle
  imports Main "HOL-Library.Char_ord" "HOL-Library.List_Lexorder"
begin

section \<open>Time\<close>

text \<open>
  A TIMESTAMP and a JavaScript \<open>Date\<close> are an integer number of milliseconds since the
  epoch; a DATE column is an integer number of days since the epoch. The worker's local
  time zone is taken to be UTC, so that a calendar day is 86400000 ms and
  \<open>setDate(getDate() + n)\<close> adds \<open>n\<close> such days.
\<close>

type_synonym timestamp = int
type_synonym date = int

definition ms_per_hour :: int where
  "ms_per_hour = 3600000"

definition ms_per_day :: int where
  "ms_per_day = 86400000"

definition CURRENT_DATE :: "timestamp \<Rightarrow> date" where
  "CURRENT_DATE now = now div ms_per_day"

definition DATE :: "timestamp \<Rightarrow> date" where
  "DATE t = t div ms_per_day"

definition DATE_TRUNC_hour :: "timestamp \<Rightarrow> timestamp" where
  "DATE_TRUNC_hour now = (now div ms_per_hour) * ms_per_hour"

definition DATE_TRUNC_day :: "timestamp \<Rightarrow> timestamp" where
  "DATE_TRUNC_day now = (now div ms_per_day) * ms_per_day"

text \<open>\<open>new Date(lead.registration_date)\<close>: midnight of the registration day.\<close>

definition date_to_timestamp :: "date \<Rightarrow> timestamp" where
  "date_to_timestamp d = d * ms_per_day"

text \<open>\<open>Date.getHours()\<close> and \<open>Date.getDate()\<close> (the day of the month, 1 to 31).\<close>

definition getHours :: "timestamp \<Rightarrow> int" where
  "getHours t = (t div ms_per_hour) mod 24"

definition getDate :: "timestamp \<Rightarrow> int" where
  "getDate t =
     (let z = t div ms_per_day + 719468;
          era = z div 146097;
          doe = z - era * 146097;
          yoe = (doe - doe div 1460 + doe div 36524 - doe div 146096) div 365;
          doy = doe - (365 * yoe + yoe div 4 - yoe div 100);
          mp = (5 * doy + 2) div 153
      in doy - (153 * mp + 2) div 5 + 1)"

section \<open>The record store (schema.sql)\<close>

datatype lead_status = L_active | L_inactive | L_duplicate | L_opted_out | L_invalid

datatype message_type = Sms | Email | Both

datatype msg_status = Pending | Sending | Sent | Delivered | Failed | Bounced | Opted_out

datatype opt_out_type = Opt_sms | Opt_email | Opt_all

record lead =
  l_id :: nat
  l_company_name :: string
  l_state :: string
  l_business_type :: "string option"
  l_industry :: "string option"
  l_registration_date :: "date option"
  l_status :: lead_status
  l_phone :: "string option"
  l_email :: "string option"
  l_import_date :: "timestamp option"

record template =
  t_id :: nat
  t_name :: string
  t_type :: message_type
  t_subject :: "string option"
  t_is_active :: bool

record campaign =
  c_id :: nat
  c_name :: string
  c_message_type :: message_type
  c_template_id :: "nat option"
  c_target_states :: "string list option"
  c_target_business_types :: "string list option"
  c_target_industries :: "string list option"
  c_min_registration_date :: "date option"
  c_max_registration_date :: "date option"
  c_daily_limit :: "int option"
  c_hourly_limit :: "int option"
  c_is_active :: bool
  c_total_targeted :: int

record message =
  m_id :: nat
  m_lead_id :: nat
  m_message_type :: message_type
  m_template_name :: string
  m_recipient_phone :: "string option"
  m_recipient_email :: "string option"
  m_subject :: "string option"
  m_status :: msg_status
  m_sent_at :: "timestamp option"
  m_failed_at :: "timestamp option"
  m_failure_reason :: "string option"
  m_provider_message_id :: "string option"
  m_campaign_id :: "nat option"
  m_created_at :: timestamp
  m_updated_at :: timestamp

record opt_out =
  o_phone :: "string option"
  o_email :: "string option"
  o_lead_id :: "nat option"
  o_opt_out_type :: opt_out_type

text \<open>
  The store: its tables, and the list of the CHECK constraint on \<open>messages.status\<close> that
  is in force (the constraint is created with the table, by schema.sql and by
  \<open>setupDatabase\<close>). The messages table has a primary key on \<open>id\<close> and no other key; its
  second constraint, \<^verbatim>\<open>messages_type_check CHECK (message_type IN ('sms', 'email'))\<close>,
  is never at stake, since \<open>getRecipient\<close> below rejects every other type before the
  INSERT.
\<close>

record db =
  leads :: "lead list"
  campaigns :: "campaign list"
  message_templates :: "template list"
  messages :: "message list"
  opt_outs :: "opt_out list"
  status_check :: "msg_status list"

text \<open>
  \<^verbatim>\<open>CONSTRAINT messages_status_check CHECK (status IN ('pending', 'sent', 'delivered',
  'failed', 'bounced', 'opted_out'))\<close>, as both schema files declare it.
\<close>

definition messages_status_check :: "msg_status list" where
  "messages_status_check = [Pending, Sent, Delivered, Failed, Bounced, Opted_out]"

text \<open>Errors thrown by the services, with the text of \<open>err.message\<close>.\<close>

datatype error =
    Lead_not_found
  | Missing_registration_date
  | Campaign_not_found
  | Campaign_not_found_or_inactive
  | Template_not_found
  | No_contact message_type
  | Invalid_message_type
  | Message_not_found
  | Not_sms_type
  | Not_email_type
  | No_recipient_phone
  | No_recipient_email
  | Subject_required
  | SendGrid_not_configured
  | Provider_error string
  | Check_violation string

fun type_name :: "message_type \<Rightarrow> string" where
  "type_name Sms = ''sms''"
| "type_name Email = ''email''"
| "type_name Both = ''both''"

fun error_message :: "error \<Rightarrow> string" where
  "error_message Lead_not_found = ''Lead not found''"
| "error_message Missing_registration_date =
     ''Lead must have a registration date for sequence campaigns''"
| "error_message Campaign_not_found = ''Campaign not found''"
| "error_message Campaign_not_found_or_inactive = ''Campaign not found or inactive''"
| "error_message Template_not_found = ''Template not found or inactive''"
| "error_message (No_contact t) = ''No '' @ type_name t @ '' contact available for lead''"
| "error_message Invalid_message_type = ''Invalid message type''"
| "error_message Message_not_found = ''Message not found''"
| "error_message Not_sms_type = ''Message is not SMS type''"
| "error_message Not_email_type = ''Message is not email type''"
| "error_message No_recipient_phone = ''No recipient phone number''"
| "error_message No_recipient_email = ''No recipient email address''"
| "error_message Subject_required = ''Email subject is required''"
| "error_message SendGrid_not_configured =
     ''SendGrid API key not configured. Email functionality is disabled.''"
| "error_message (Provider_error e) = e"
| "error_message (Check_violation c) =
     ''new row for relation \"messages\" violates check constraint \"'' @ c @ ''\"''"

text \<open>
  An UPDATE of the messages table: the rows that satisfy the WHERE clause are rewritten,
  and the statement fails as a whole when a rewritten row violates the CHECK constraint.
\<close>

definition update_messages ::
  "(message \<Rightarrow> bool) \<Rightarrow> (message \<Rightarrow> message) \<Rightarrow> db \<Rightarrow> error + db" where
  "update_messages P f d =
     (if list_all (\<lambda>m. m_status (f m) \<in> set (status_check d)) (filter P (messages d))
      then Inr (d\<lparr>messages := map (\<lambda>m. if P m then f m else m) (messages d)\<rparr>)
      else Inl (Check_violation ''messages_status_check''))"

text \<open>JavaScript truthiness of a nullable string: \<open>null\<close> and \<open>''\<close> are falsy.\<close>

fun truthy :: "string option \<Rightarrow> bool" where
  "truthy None = False"
| "truthy (Some s) = (s \<noteq> [])"

text \<open>\<open>uuid_generate_v4()\<close>: an id no row of the table has.\<close>

definition fresh_id :: "message list \<Rightarrow> nat" where
  "fresh_id ms = Suc (fold max (map m_id ms) 0)"

section \<open>MessageGenerationService\<close>

text \<open>
  \<open>getRecipient(lead, messageType)\<close>: the contact of the lead for the channel; any type
  other than sms and email throws.
\<close>

fun getRecipient :: "lead \<Rightarrow> message_type \<Rightarrow> error + string option" where
  "getRecipient l Sms = Inr (l_phone l)"
| "getRecipient l Email = Inr (l_email l)"
| "getRecipient l Both = Inl Invalid_message_type"

text \<open>
  \<open>generateMessage(leadId, templateName)\<close>. Rendering the template text is an external
  collaborator: the rendered subject is represented by the template's subject, and the
  content (NOT NULL in both tables) is not represented.
\<close>

record message_data =
  md_leadId :: nat
  md_messageType :: message_type
  md_templateName :: string
  md_contact :: string
  md_subject :: "string option"

definition generateMessage :: "db \<Rightarrow> nat \<Rightarrow> string \<Rightarrow> error + message_data" where
  "generateMessage d leadId templateName =
     (case filter (\<lambda>l. l_id l = leadId) (leads d) of
        [] \<Rightarrow> Inl Lead_not_found
      | l # _ \<Rightarrow>
         (case filter (\<lambda>t. t_name t = templateName \<and> t_is_active t) (message_templates d) of
            [] \<Rightarrow> Inl Template_not_found
          | t # _ \<Rightarrow>
             (case getRecipient l (t_type t) of
                Inl e \<Rightarrow> Inl e
              | Inr contact \<Rightarrow>
                 if \<not> truthy contact then Inl (No_contact (t_type t))
                 else Inr \<lparr> md_leadId = leadId, md_messageType = t_type t,
                            md_templateName = templateName, md_contact = the contact,
                            md_subject = (if truthy (t_subject t) then t_subject t else None) \<rparr>)))"

text \<open>\<open>getCampaignTemplateName(campaign)\<close>.\<close>

definition getCampaignTemplateName :: "db \<Rightarrow> campaign \<Rightarrow> string" where
  "getCampaignTemplateName d c =
     (case (case c_template_id c of
              None \<Rightarrow> []
            | Some tid \<Rightarrow> filter (\<lambda>t. t_id t = tid) (message_templates d)) of
        t # _ \<Rightarrow> t_name t
      | [] \<Rightarrow> if c_message_type c = Sms then ''llc_welcome_sms'' else ''llc_welcome_email'')"

text \<open>
  \<open>createCampaignMessage(leadId, campaignId, templateName = null)\<close>: the INSERT writes
  status \<open>'pending'\<close>, which the CHECK constraint must admit. It returns the new message
  id and the store.
\<close>

definition createCampaignMessage ::
  "db \<Rightarrow> timestamp \<Rightarrow> nat \<Rightarrow> nat \<Rightarrow> string option \<Rightarrow> error + (nat \<times> db)" where
  "createCampaignMessage d now leadId campaignId templateName =
     (case filter (\<lambda>c. c_id c = campaignId) (campaigns d) of
        [] \<Rightarrow> Inl Campaign_not_found
      | c # _ \<Rightarrow>
         (let finalTemplateName =
                (if truthy templateName then the templateName else getCampaignTemplateName d c)
          in case generateMessage d leadId finalTemplateName of
               Inl e \<Rightarrow> Inl e
             | Inr md \<Rightarrow>
                if Pending \<notin> set (status_check d)
                then Inl (Check_violation ''messages_status_check'')
                else
                (let messageId = fresh_id (messages d);
                     row = \<lparr> m_id = messageId, m_lead_id = leadId,
                             m_message_type = md_messageType md,
                             m_template_name = md_templateName md,
                             m_recipient_phone =
                               (if md_messageType md = Sms then Some (md_contact md) else None),
                             m_recipient_email =
                               (if md_messageType md = Email then Some (md_contact md) else None),
                             m_subject = md_subject md,
                             m_status = Pending,
                             m_sent_at = None, m_failed_at = None, m_failure_reason = None,
                             m_provider_message_id = None,
                             m_campaign_id = Some campaignId,
                             m_created_at = now, m_updated_at = now \<rparr>
                 in Inr (messageId, d\<lparr>messages := messages d @ [row]\<rparr>))))"

section \<open>SequenceCampaignService\<close>

record step =
  day :: int
  name :: string
  smsTemplate :: string
  emailTemplate :: string

definition llcSequence :: "step list" where
  "llcSequence =
     [ \<lparr> day = 1, name = ''EIN / Tax ID'',
         smsTemplate = ''llc_day1_ein_sms'', emailTemplate = ''llc_day1_ein_email'' \<rparr>,
       \<lparr> day = 3, name = ''Business Banking'',
         smsTemplate = ''llc_day3_banking_sms'', emailTemplate = ''llc_day3_banking_email'' \<rparr>,
       \<lparr> day = 7, name = ''Accounting / Bookkeeping'',
         smsTemplate = ''llc_day7_accounting_sms'',
         emailTemplate = ''llc_day7_accounting_email'' \<rparr>,
       \<lparr> day = 10, name = ''Registered Agent / Compliance'',
         smsTemplate = ''llc_day10_compliance_sms'',
         emailTemplate = ''llc_day10_compliance_email'' \<rparr>,
       \<lparr> day = 15, name = ''Business Insurance'',
         smsTemplate = ''llc_day15_insurance_sms'',
         emailTemplate = ''llc_day15_insurance_email'' \<rparr> ]"

record generated =
  g_step :: string
  g_day :: int
  g_messageId :: nat
  g_templateName :: string
  g_scheduledDate :: timestamp

record sequence_result =
  r_leadId :: nat
  r_campaignId :: nat
  r_daysSinceRegistration :: int
  r_generatedMessages :: "generated list"
  r_totalSteps :: nat

text \<open>The template of a step for a message type: \<open>messageType === 'sms' ? step.smsTemplate : step.emailTemplate\<close>.\<close>

definition step_template :: "message_type \<Rightarrow> step \<Rightarrow> string" where
  "step_template messageType s = (if messageType = Sms then smsTemplate s else emailTemplate s)"

text \<open>The existence query: every message of the lead and campaign with that template name, in any status.\<close>

definition existing_messages :: "db \<Rightarrow> nat \<Rightarrow> nat \<Rightarrow> string \<Rightarrow> message list" where
  "existing_messages d leadId campaignId templateName =
     filter (\<lambda>m. m_lead_id m = leadId \<and> m_campaign_id m = Some campaignId
                 \<and> m_template_name m = templateName) (messages d)"

text \<open>
  The loop over the steps of \<open>generateSequenceMessages\<close>: a step in the future is skipped,
  a step with an existing message is skipped, and a creation that throws is logged and
  skipped.
\<close>

fun sequence_loop ::
  "step list \<Rightarrow> timestamp \<Rightarrow> timestamp \<Rightarrow> nat \<Rightarrow> nat \<Rightarrow> message_type \<Rightarrow> db \<Rightarrow> generated list
     \<Rightarrow> generated list \<times> db" where
  "sequence_loop [] registrationDate now leadId campaignId messageType d acc = (acc, d)"
| "sequence_loop (s # ss) registrationDate now leadId campaignId messageType d acc =
     (let scheduledDate = registrationDate + day s * ms_per_day in
      if scheduledDate > now
      then sequence_loop ss registrationDate now leadId campaignId messageType d acc
      else if existing_messages d leadId campaignId (step_template messageType s) \<noteq> []
      then sequence_loop ss registrationDate now leadId campaignId messageType d acc
      else (let templateName = step_template messageType s in
            case createCampaignMessage d now leadId campaignId (Some templateName) of
              Inl e \<Rightarrow> sequence_loop ss registrationDate now leadId campaignId messageType d acc
            | Inr (messageId, d') \<Rightarrow>
                sequence_loop ss registrationDate now leadId campaignId messageType d'
                  (acc @ [\<lparr> g_step = name s, g_day = day s, g_messageId = messageId,
                            g_templateName = templateName,
                            g_scheduledDate = scheduledDate \<rparr>])))"

definition generateSequenceMessages ::
  "db \<Rightarrow> timestamp \<Rightarrow> nat \<Rightarrow> nat \<Rightarrow> message_type \<Rightarrow> error + (sequence_result \<times> db)" where
  "generateSequenceMessages d now leadId campaignId messageType =
     (case filter (\<lambda>l. l_id l = leadId) (leads d) of
        [] \<Rightarrow> Inl Lead_not_found
      | l # _ \<Rightarrow>
         (case l_registration_date l of
            None \<Rightarrow> Inl Missing_registration_date
          | Some rd \<Rightarrow>
             (let registrationDate = date_to_timestamp rd;
                  daysSinceRegistration = (now - registrationDate) div ms_per_day;
                  (generatedMessages, d') =
                     sequence_loop llcSequence registrationDate now leadId campaignId
                       messageType d []
              in Inr (\<lparr> r_leadId = leadId, r_campaignId = campaignId,
                         r_daysSinceRegistration = daysSinceRegistration,
                         r_generatedMessages = generatedMessages,
                         r_totalSteps = length llcSequence \<rparr>, d'))))"


section \<open>LeadFilteringService\<close>

text \<open>
  A key of the caller's \<open>filters\<close> object for which \<open>defaultFilters\<close> has a value: the key
  is absent (the default applies), present with the value \<open>undefined\<close>, or given.
  \<open>merged\<close> is the value of the key in \<open>{ ...this.defaultFilters, ...filters }\<close>.
\<close>

datatype 'a js_key = Absent | Undefined | Given 'a

fun merged :: "'a option \<Rightarrow> 'a js_key \<Rightarrow> 'a option" where
  "merged dflt Absent = dflt"
| "merged dflt Undefined = None"
| "merged dflt (Given v) = Some v"

text \<open>
  The filters. The employee, revenue and company-name-search filters, which no worker
  path sets and whose lead columns the store above leaves out, are not represented.
\<close>

record filters =
  f_status :: "lead_status list js_key"
  f_excludeOptedOut :: "bool js_key"
  f_minRegistrationDays :: "int js_key"
  f_maxRegistrationDays :: "int js_key"
  f_requireContact :: "bool js_key"
  f_states :: "string list option"
  f_businessTypes :: "string list option"
  f_industries :: "string list option"
  f_registrationDateFrom :: "date option"
  f_registrationDateTo :: "date option"
  f_requirePhone :: bool
  f_requireEmail :: bool
  f_excludeContacted :: bool
  f_contactedWithinDays :: "int option"
  f_excludeCampaigns :: "nat list option"

text \<open>SQL equality of two nullable values is true only when both are present and equal.\<close>

fun sql_eq :: "'a option \<Rightarrow> 'a option \<Rightarrow> bool" where
  "sql_eq (Some a) (Some b) = (a = b)"
| "sql_eq _ _ = False"

text \<open>\<open>x IN (list)\<close> for a nullable column: never true for \<open>NULL\<close>.\<close>

fun sql_in :: "'a option \<Rightarrow> 'a list \<Rightarrow> bool" where
  "sql_in None xs = False"
| "sql_in (Some a) xs = (a \<in> set xs)"

text \<open>
  The WHERE clause of the opt-out subquery, for a lead \<open>l\<close> and an opt_outs row \<open>o\<close> (written \<open>r\<close> below):
  \<^verbatim>\<open>(o.phone = l.phone AND o.opt_out_type IN ('sms', 'all'))
   OR (o.email = l.email AND o.opt_out_type IN ('email', 'all'))
   OR o.lead_id = l.id\<close>
\<close>

definition opt_out_matches :: "lead \<Rightarrow> opt_out \<Rightarrow> bool" where
  "opt_out_matches l r =
     ((sql_eq (o_phone r) (l_phone l) \<and> (o_opt_out_type r = Opt_sms \<or> o_opt_out_type r = Opt_all))
      \<or> (sql_eq (o_email r) (l_email l)
          \<and> (o_opt_out_type r = Opt_email \<or> o_opt_out_type r = Opt_all))
      \<or> o_lead_id r = Some (l_id l))"

definition opted_out :: "db \<Rightarrow> lead \<Rightarrow> bool" where
  "opted_out d l = list_ex (opt_out_matches l) (opt_outs d)"

text \<open>A list filter applies when it is given and not empty.\<close>

fun list_filter :: "'a list option \<Rightarrow> ('a list \<Rightarrow> bool) \<Rightarrow> bool" where
  "list_filter None P = True"
| "list_filter (Some []) P = True"
| "list_filter (Some (x # xs)) P = P (x # xs)"

fun when_given :: "'a option \<Rightarrow> ('a \<Rightarrow> bool) \<Rightarrow> bool" where
  "when_given None P = True"
| "when_given (Some v) P = P v"

text \<open>A comparison of the nullable registration date: never true for \<open>NULL\<close>.\<close>

fun date_cmp :: "date option \<Rightarrow> (date \<Rightarrow> bool) \<Rightarrow> bool" where
  "date_cmp None P = False"
| "date_cmp (Some r) P = P r"

text \<open>
  \<open>buildWhereClause(filters)\<close>, as the predicate on a lead row that the conjunction of its
  conditions denotes.
\<close>

definition buildWhereClause :: "db \<Rightarrow> timestamp \<Rightarrow> filters \<Rightarrow> lead \<Rightarrow> bool" where
  "buildWhereClause d now f l =
     (list_filter (merged (Some [L_active]) (f_status f)) (\<lambda>sts. l_status l \<in> set sts)
      \<and> list_filter (f_states f) (\<lambda>sts. l_state l \<in> set sts)
      \<and> list_filter (f_businessTypes f) (\<lambda>ts. sql_in (l_business_type l) ts)
      \<and> list_filter (f_industries f) (\<lambda>ns. sql_in (l_industry l) ns)
      \<and> when_given (merged (Some 1) (f_minRegistrationDays f))
           (\<lambda>n. date_cmp (l_registration_date l) (\<lambda>r. r \<ge> CURRENT_DATE now - n))
      \<and> when_given (merged (Some 365) (f_maxRegistrationDays f))
           (\<lambda>n. date_cmp (l_registration_date l) (\<lambda>r. r \<le> CURRENT_DATE now - n))
      \<and> when_given (f_registrationDateFrom f)
           (\<lambda>lo. date_cmp (l_registration_date l) (\<lambda>r. r \<ge> lo))
      \<and> when_given (f_registrationDateTo f)
           (\<lambda>hi. date_cmp (l_registration_date l) (\<lambda>r. r \<le> hi))
      \<and> (if merged (Some True) (f_requireContact f) = Some True
          then l_phone l \<noteq> None \<or> l_email l \<noteq> None else True)
      \<and> (if f_requirePhone f then l_phone l \<noteq> None else True)
      \<and> (if f_requireEmail f then l_email l \<noteq> None else True)
      \<and> (if merged (Some True) (f_excludeOptedOut f) = Some True
          then \<not> opted_out d l else True)
      \<and> (if f_excludeContacted f
          then \<not> list_ex (\<lambda>m. m_lead_id m = l_id l
                    \<and> (m_status m = Sent \<or> m_status m = Delivered)
                    \<and> date_cmp (m_sent_at m)
                        (\<lambda>t. t \<ge> (CURRENT_DATE now
                               - (case f_contactedWithinDays f of
                                    None \<Rightarrow> 30 | Some n \<Rightarrow> if n = 0 then 30 else n))
                              * ms_per_day))
                 (messages d)
          else True)
      \<and> list_filter (f_excludeCampaigns f)
           (\<lambda>cs. \<not> list_ex (\<lambda>m. m_lead_id m = l_id l \<and> sql_in (m_campaign_id m) cs)
                    (messages d)))"

text \<open>
  ORDER BY: rows are put in order by insertion (rows with equal keys keep the order of the
  table, where SQL leaves their order open). Ascending order puts \<open>NULL\<close> last, descending
  order is its reverse. Strings compare by character code.
\<close>

fun insort_by :: "('a \<Rightarrow> 'a \<Rightarrow> bool) \<Rightarrow> 'a \<Rightarrow> 'a list \<Rightarrow> 'a list" where
  "insort_by le x [] = [x]"
| "insort_by le x (y # ys) = (if le x y then x # y # ys else y # insort_by le x ys)"

definition order_by :: "('a \<Rightarrow> 'a \<Rightarrow> bool) \<Rightarrow> 'a list \<Rightarrow> 'a list" where
  "order_by le xs = foldr (insort_by le) xs []"

fun nulls_last_le :: "'a::linorder option \<Rightarrow> 'a option \<Rightarrow> bool" where
  "nulls_last_le _ None = True"
| "nulls_last_le None (Some b) = False"
| "nulls_last_le (Some a) (Some b) = (a \<le> b)"

definition lead_le :: "string \<Rightarrow> lead \<Rightarrow> lead \<Rightarrow> bool" where
  "lead_le column a b =
     (if column = ''company_name'' then l_company_name a \<le> l_company_name b
      else if column = ''state'' then l_state a \<le> l_state b
      else if column = ''import_date'' then nulls_last_le (l_import_date a) (l_import_date b)
      else nulls_last_le (l_registration_date a) (l_registration_date b))"

record options =
  o_limit :: nat
  o_offset :: nat
  o_orderBy :: string
  o_orderDirection :: string

definition default_options :: options where
  "default_options =
     \<lparr> o_limit = 100, o_offset = 0, o_orderBy = ''registration_date'',
       o_orderDirection = ''DESC'' \<rparr>"

text \<open>\<open>orderDirection.toUpperCase() === 'ASC'\<close>.\<close>

definition is_ASC :: "string \<Rightarrow> bool" where
  "is_ASC s = (s \<in> set [''ASC'', ''ASc'', ''AsC'', ''Asc'', ''aSC'', ''aSc'', ''asC'', ''asc''])"

record filtered_leads =
  fl_leads :: "lead list"
  fl_total :: nat

text \<open>
  \<open>getFilteredLeads(filters, options)\<close>; of the pagination object only \<open>total\<close> is kept, the
  rest being computed from it and the options.
\<close>

definition getFilteredLeads :: "db \<Rightarrow> timestamp \<Rightarrow> filters \<Rightarrow> options \<Rightarrow> filtered_leads" where
  "getFilteredLeads d now f opts =
     (let allowedOrderBy = [''registration_date'', ''company_name'', ''state'', ''import_date''];
          safeOrderBy = (if o_orderBy opts \<in> set allowedOrderBy then o_orderBy opts
                         else ''registration_date'');
          rows = filter (buildWhereClause d now f) (leads d);
          ordered = (if is_ASC (o_orderDirection opts)
                     then order_by (lead_le safeOrderBy) rows
                     else order_by (\<lambda>a b. lead_le safeOrderBy b a) rows)
      in \<lparr> fl_leads = take (o_limit opts) (drop (o_offset opts) ordered),
           fl_total = length rows \<rparr>)"

definition campaign_filters :: "campaign \<Rightarrow> filters" where
  "campaign_filters c =
     \<lparr> f_status = Given [L_active],
       f_excludeOptedOut = Given True,
       f_minRegistrationDays = Absent,
       f_maxRegistrationDays = Absent,
       f_requireContact = Absent,
       f_states = c_target_states c,
       f_businessTypes = c_target_business_types c,
       f_industries = c_target_industries c,
       f_registrationDateFrom = c_min_registration_date c,
       f_registrationDateTo = c_max_registration_date c,
       f_requirePhone = (c_message_type c = Sms),
       f_requireEmail = (c_message_type c = Email),
       f_excludeContacted = True,
       f_contactedWithinDays = Some 30,
       f_excludeCampaigns = Some [c_id c] \<rparr>"

definition getLeadsForCampaign ::
  "db \<Rightarrow> timestamp \<Rightarrow> nat \<Rightarrow> nat \<Rightarrow> error + filtered_leads" where
  "getLeadsForCampaign d now campaignId limit =
     (case filter (\<lambda>c. c_id c = campaignId \<and> c_is_active c) (campaigns d) of
        [] \<Rightarrow> Inl Campaign_not_found_or_inactive
      | c # _ \<Rightarrow>
          Inr (getFilteredLeads d now (campaign_filters c)
                 \<lparr> o_limit = limit, o_offset = 0, o_orderBy = ''registration_date'',
                   o_orderDirection = ''ASC'' \<rparr>))"

section \<open>SequenceCampaignService: processing a campaign\<close>

text \<open>
  The lead query of \<open>processSingleSequenceCampaign\<close> (the \<open>filters\<close> object the function
  builds first is never used). A non-null \<open>target_states\<close>, even empty, adds the state
  condition.
\<close>

definition sequence_leads :: "db \<Rightarrow> timestamp \<Rightarrow> campaign \<Rightarrow> nat \<Rightarrow> lead list" where
  "sequence_leads d now c limit =
     take limit
       (order_by (\<lambda>a b. nulls_last_le (l_registration_date a) (l_registration_date b))
          (filter (\<lambda>l. l_status l = L_active
                     \<and> date_cmp (l_registration_date l) (\<lambda>r. r \<ge> CURRENT_DATE now - 30)
                     \<and> when_given (c_target_states c) (\<lambda>sts. l_state l \<in> set sts)
                     \<and> (if c_message_type c = Sms then l_phone l \<noteq> None else True)
                     \<and> (if c_message_type c = Email then l_email l \<noteq> None else True)
                     \<and> \<not> opted_out d l)
             (leads d)))"

text \<open>
  The loop over the selected leads; a lead whose generation throws is logged and skipped.
  A tick takes place at one instant \<open>now\<close>.
\<close>

fun sequence_campaign_loop ::
  "lead list \<Rightarrow> timestamp \<Rightarrow> campaign \<Rightarrow> db \<Rightarrow> nat \<Rightarrow> nat \<times> db" where
  "sequence_campaign_loop [] now c d processed = (processed, d)"
| "sequence_campaign_loop (l # ls) now c d processed =
     (case generateSequenceMessages d now (l_id l) (c_id c) (c_message_type c) of
        Inl e \<Rightarrow> sequence_campaign_loop ls now c d processed
      | Inr (result, d') \<Rightarrow>
          sequence_campaign_loop ls now c d'
            (if r_generatedMessages result \<noteq> [] then Suc processed else processed))"

definition processSingleSequenceCampaign ::
  "db \<Rightarrow> timestamp \<Rightarrow> campaign \<Rightarrow> nat \<Rightarrow> nat \<times> db" where
  "processSingleSequenceCampaign d now c limit =
     sequence_campaign_loop (sequence_leads d now c limit) now c d 0"


section \<open>MessageWorker: campaign admission\<close>

text \<open>A nullable integer column in JavaScript arithmetic and comparison: \<open>null\<close> is 0.\<close>

fun js_num :: "int option \<Rightarrow> int" where
  "js_num None = 0"
| "js_num (Some n) = n"

text \<open>
  The two counting queries of \<open>processCampaign\<close>:
  \<^verbatim>\<open>WHERE campaign_id = $1 AND DATE(created_at) = CURRENT_DATE\<close> and
  \<^verbatim>\<open>WHERE campaign_id = $1 AND created_at >= DATE_TRUNC('hour', CURRENT_TIMESTAMP)\<close>.
\<close>

definition todayCount :: "db \<Rightarrow> timestamp \<Rightarrow> campaign \<Rightarrow> int" where
  "todayCount d now c =
     int (length (filter (\<lambda>m. m_campaign_id m = Some (c_id c)
                             \<and> DATE (m_created_at m) = CURRENT_DATE now) (messages d)))"

definition thisHourCount :: "db \<Rightarrow> timestamp \<Rightarrow> campaign \<Rightarrow> int" where
  "thisHourCount d now c =
     int (length (filter (\<lambda>m. m_campaign_id m = Some (c_id c)
                             \<and> m_created_at m \<ge> DATE_TRUNC_hour now) (messages d)))"

text \<open>\<open>Math.min(remainingDaily, remainingHourly, 50)\<close>.\<close>

definition generateLimit :: "db \<Rightarrow> timestamp \<Rightarrow> campaign \<Rightarrow> int" where
  "generateLimit d now c =
     (let remainingDaily = js_num (c_daily_limit c) - todayCount d now c;
          remainingHourly = js_num (c_hourly_limit c) - thisHourCount d now c
      in min (min remainingDaily remainingHourly) 50)"

text \<open>The loop of \<open>processCampaign\<close> over the leads; a creation that throws is logged.\<close>

fun campaign_loop :: "lead list \<Rightarrow> timestamp \<Rightarrow> nat \<Rightarrow> db \<Rightarrow> nat \<Rightarrow> nat \<times> db" where
  "campaign_loop [] now campaignId d generatedCount = (generatedCount, d)"
| "campaign_loop (l # ls) now campaignId d generatedCount =
     (case createCampaignMessage d now (l_id l) campaignId None of
        Inl e \<Rightarrow> campaign_loop ls now campaignId d generatedCount
      | Inr (messageId, d') \<Rightarrow> campaign_loop ls now campaignId d' (Suc generatedCount))"

datatype campaign_tick =
    Daily_limit_reached
  | Hourly_limit_reached
  | No_capacity
  | No_leads
  | Generated nat

text \<open>\<open>processCampaign(campaign)\<close>: what the tick did and the store, or the error thrown.\<close>

definition processCampaign :: "db \<Rightarrow> timestamp \<Rightarrow> campaign \<Rightarrow> error + (campaign_tick \<times> db)" where
  "processCampaign d now c =
     (if todayCount d now c \<ge> js_num (c_daily_limit c) then Inr (Daily_limit_reached, d)
      else if thisHourCount d now c \<ge> js_num (c_hourly_limit c)
      then Inr (Hourly_limit_reached, d)
      else if generateLimit d now c \<le> 0 then Inr (No_capacity, d)
      else case getLeadsForCampaign d now (c_id c) (nat (generateLimit d now c)) of
             Inl e \<Rightarrow> Inl e
           | Inr leadsResult \<Rightarrow>
               if fl_leads leadsResult = [] then Inr (No_leads, d)
               else (let (generatedCount, d') =
                           campaign_loop (fl_leads leadsResult) now (c_id c) d 0
                     in Inr (Generated generatedCount,
                          if generatedCount > 0
                          then d'\<lparr>campaigns :=
                                    map (\<lambda>x. if c_id x = c_id c
                                              then x\<lparr>c_total_targeted :=
                                                        c_total_targeted x + int generatedCount\<rparr>
                                              else x) (campaigns d')\<rparr>
                          else d')))"

section \<open>MessageWorker: rate counters\<close>

record settings =
  dailyLimit :: int
  hourlyLimit :: int
  messageDelay :: int
  batchSize :: int
  autoCampaignEnabled :: bool

record worker =
  isRunning :: bool
  dailyMessageCount :: int
  hourlyMessageCount :: int
  lastHourReset :: int
  lastDayReset :: int
  settings :: settings

definition new_worker :: "timestamp \<Rightarrow> worker" where
  "new_worker now =
     \<lparr> isRunning = False, dailyMessageCount = 0, hourlyMessageCount = 0,
       lastHourReset = getHours now, lastDayReset = getDate now,
       settings = \<lparr> dailyLimit = 1000, hourlyLimit = 100, messageDelay = 5000,
                    batchSize = 10, autoCampaignEnabled = True \<rparr> \<rparr>"

text \<open>
  The two counting queries of \<open>resetCounters\<close>:
  \<^verbatim>\<open>WHERE sent_at >= DATE_TRUNC('hour', CURRENT_TIMESTAMP) AND status IN ('sent', 'delivered')\<close>
  and the same with \<open>'day'\<close>.
\<close>

definition hourly_store_count :: "db \<Rightarrow> timestamp \<Rightarrow> int" where
  "hourly_store_count d now =
     int (length (filter (\<lambda>m. date_cmp (m_sent_at m) (\<lambda>t. t \<ge> DATE_TRUNC_hour now)
                             \<and> (m_status m = Sent \<or> m_status m = Delivered)) (messages d)))"

definition daily_store_count :: "db \<Rightarrow> timestamp \<Rightarrow> int" where
  "daily_store_count d now =
     int (length (filter (\<lambda>m. date_cmp (m_sent_at m) (\<lambda>t. t \<ge> DATE_TRUNC_day now)
                             \<and> (m_status m = Sent \<or> m_status m = Delivered)) (messages d)))"

definition resetCounters :: "worker \<Rightarrow> db \<Rightarrow> timestamp \<Rightarrow> worker" where
  "resetCounters w d now =
     (let currentHour = getHours now;
          currentDay = getDate now;
          w1 = (if currentHour \<noteq> lastHourReset w
                then w\<lparr>hourlyMessageCount := 0, lastHourReset := currentHour\<rparr> else w);
          w2 = (if currentDay \<noteq> lastDayReset w1
                then w1\<lparr>dailyMessageCount := 0, lastDayReset := currentDay\<rparr> else w1)
      in w2\<lparr>hourlyMessageCount := hourly_store_count d now,
             dailyMessageCount := daily_store_count d now\<rparr>)"

definition resetHourlyCounter :: "worker \<Rightarrow> timestamp \<Rightarrow> worker" where
  "resetHourlyCounter w now = w\<lparr>hourlyMessageCount := 0, lastHourReset := getHours now\<rparr>"

definition resetDailyCounter :: "worker \<Rightarrow> timestamp \<Rightarrow> worker" where
  "resetDailyCounter w now = w\<lparr>dailyMessageCount := 0, lastDayReset := getDate now\<rparr>"

text \<open>
  \<open>start()\<close>, up to the scheduling of the cron jobs: the settings are loaded (the parsed
  rows of \<open>system_settings\<close> are the argument \<open>loaded\<close>) and the counters are reset.
\<close>

definition start :: "worker \<Rightarrow> settings \<Rightarrow> db \<Rightarrow> timestamp \<Rightarrow> worker" where
  "start w loaded d now = resetCounters (w\<lparr>settings := loaded\<rparr>) d now"

section \<open>SMSService and EmailService\<close>

definition maxRetries :: nat where
  "maxRetries = 3"

text \<open>
  The SMS provider capability: what the \<open>k\<close>-th invocation of \<open>client.Messages.send\<close>
  answers, an error text or the id of the response. \<open>sendWithRetry(smsData, attempt = 1)\<close>
  returns its result and the number of invocations made so far.
\<close>

type_synonym sms_provider = "nat \<Rightarrow> string + string"

function SMSService_sendWithRetry ::
  "sms_provider \<Rightarrow> nat \<Rightarrow> nat \<Rightarrow> (string + string) \<times> nat" where
  "SMSService_sendWithRetry provider calls attempt =
     (case provider calls of
        Inr res \<Rightarrow> (Inr res, Suc calls)
      | Inl err \<Rightarrow>
          if attempt < maxRetries
          then SMSService_sendWithRetry provider (Suc calls) (Suc attempt)
          else (Inl err, Suc calls))"
  by pat_completeness auto
termination
  by (relation "measure (\<lambda>(provider, calls, attempt). maxRetries - attempt)") auto

text \<open>
  The email provider capability: \<open>sgMail.send\<close> answers the \<open>x-message-id\<close> of the response
  or an error with an optional \<open>code\<close> and an optional response body.
\<close>

record sg_error =
  e_message :: string
  e_code :: "int option"
  e_body :: "string option"

type_synonym email_provider = "nat \<Rightarrow> sg_error + string"

definition isRetryableError :: "sg_error \<Rightarrow> bool" where
  "isRetryableError err =
     (case e_code err of
        None \<Rightarrow> False
      | Some code \<Rightarrow> if code = 0 then False else code \<in> set [429, 500, 502, 503, 504])"

function EmailService_sendWithRetry ::
  "email_provider \<Rightarrow> nat \<Rightarrow> nat \<Rightarrow> (string + string) \<times> nat" where
  "EmailService_sendWithRetry provider calls attempt =
     (case provider calls of
        Inr res \<Rightarrow> (Inr res, Suc calls)
      | Inl err \<Rightarrow>
          if attempt < maxRetries \<and> isRetryableError err
          then EmailService_sendWithRetry provider (Suc calls) (Suc attempt)
          else (case e_body err of
                  Some body \<Rightarrow> (Inl (''SendGrid error: '' @ body), Suc calls)
                | None \<Rightarrow> (Inl (e_message err), Suc calls)))"
  by pat_completeness auto
termination
  by (relation "measure (\<lambda>(provider, calls, attempt). maxRetries - attempt)") auto

text \<open>
  What a dispatch answers: \<open>{success: true, providerMessageId}\<close>, \<open>{success: false, error}\<close>,
  or a rejected promise (when the UPDATE of the \<open>catch\<close> block itself throws).
\<close>

datatype send_result = Success string | Failure error | Rejected error

text \<open>The three UPDATE statements of a dispatch.\<close>

definition mark_sending :: "timestamp \<Rightarrow> message \<Rightarrow> message" where
  "mark_sending now m = m\<lparr>m_status := Sending, m_updated_at := now\<rparr>"

definition mark_sent :: "timestamp \<Rightarrow> string \<Rightarrow> message \<Rightarrow> message" where
  "mark_sent now providerMessageId m =
     m\<lparr>m_status := Sent, m_sent_at := Some now,
       m_provider_message_id := Some providerMessageId, m_updated_at := now\<rparr>"

definition mark_failed :: "timestamp \<Rightarrow> string \<Rightarrow> message \<Rightarrow> message" where
  "mark_failed now reason m =
     m\<lparr>m_status := Failed, m_failed_at := Some now, m_failure_reason := Some reason,
       m_updated_at := now\<rparr>"

text \<open>
  The \<open>try\<close> block of \<open>sendSMS(messageId)\<close>: the provider's answer or the error thrown, the
  store, and the number of provider invocations.
\<close>

definition sendSMS_try ::
  "sms_provider \<Rightarrow> db \<Rightarrow> timestamp \<Rightarrow> nat \<Rightarrow> (error + string) \<times> db \<times> nat" where
  "sendSMS_try provider d now messageId =
     (case filter (\<lambda>m. m_id m = messageId) (messages d) of
        [] \<Rightarrow> (Inl Message_not_found, d, 0)
      | message # _ \<Rightarrow>
          if m_message_type message \<noteq> Sms then (Inl Not_sms_type, d, 0)
          else if \<not> truthy (m_recipient_phone message) then (Inl No_recipient_phone, d, 0)
          else (case update_messages (\<lambda>m. m_id m = messageId) (mark_sending now) d of
                  Inl e \<Rightarrow> (Inl e, d, 0)
                | Inr d1 \<Rightarrow>
                   (case SMSService_sendWithRetry provider 0 1 of
                      (Inl err, calls) \<Rightarrow> (Inl (Provider_error err), d1, calls)
                    | (Inr res, calls) \<Rightarrow>
                       (case update_messages (\<lambda>m. m_id m = messageId) (mark_sent now res) d1 of
                          Inl e \<Rightarrow> (Inl e, d1, calls)
                        | Inr d2 \<Rightarrow> (Inr res, d2, calls)))))"

text \<open>The \<open>catch\<close> block shared by \<open>sendSMS\<close> and \<open>sendEmail\<close>.\<close>

definition send_catch ::
  "(error + string) \<times> db \<times> nat \<Rightarrow> timestamp \<Rightarrow> nat \<Rightarrow> send_result \<times> db \<times> nat" where
  "send_catch tried now messageId =
     (case tried of
        (Inr res, d, calls) \<Rightarrow> (Success res, d, calls)
      | (Inl err, d, calls) \<Rightarrow>
          (case update_messages (\<lambda>m. m_id m = messageId)
                  (mark_failed now (error_message err)) d of
             Inl e \<Rightarrow> (Rejected e, d, calls)
           | Inr d' \<Rightarrow> (Failure err, d', calls)))"

definition sendSMS :: "sms_provider \<Rightarrow> db \<Rightarrow> timestamp \<Rightarrow> nat \<Rightarrow> send_result \<times> db \<times> nat" where
  "sendSMS provider d now messageId =
     send_catch (sendSMS_try provider d now messageId) now messageId"

text \<open>
  \<open>sendEmail(messageId)\<close>; \<open>configured\<close> tells whether the SendGrid API key is set and starts
  with \<open>SG.\<close>.
\<close>

definition sendEmail_try ::
  "bool \<Rightarrow> email_provider \<Rightarrow> db \<Rightarrow> timestamp \<Rightarrow> nat \<Rightarrow> (error + string) \<times> db \<times> nat" where
  "sendEmail_try configured provider d now messageId =
     (if \<not> configured then (Inl SendGrid_not_configured, d, 0)
      else case filter (\<lambda>m. m_id m = messageId) (messages d) of
        [] \<Rightarrow> (Inl Message_not_found, d, 0)
      | message # _ \<Rightarrow>
          if m_message_type message \<noteq> Email then (Inl Not_email_type, d, 0)
          else if \<not> truthy (m_recipient_email message) then (Inl No_recipient_email, d, 0)
          else if \<not> truthy (m_subject message) then (Inl Subject_required, d, 0)
          else (case update_messages (\<lambda>m. m_id m = messageId) (mark_sending now) d of
                  Inl e \<Rightarrow> (Inl e, d, 0)
                | Inr d1 \<Rightarrow>
                   (case EmailService_sendWithRetry provider 0 1 of
                      (Inl err, calls) \<Rightarrow> (Inl (Provider_error err), d1, calls)
                    | (Inr res, calls) \<Rightarrow>
                       (case update_messages (\<lambda>m. m_id m = messageId) (mark_sent now res) d1 of
                          Inl e \<Rightarrow> (Inl e, d1, calls)
                        | Inr d2 \<Rightarrow> (Inr res, d2, calls)))))"

definition sendEmail ::
  "bool \<Rightarrow> email_provider \<Rightarrow> db \<Rightarrow> timestamp \<Rightarrow> nat \<Rightarrow> send_result \<times> db \<times> nat" where
  "sendEmail configured provider d now messageId =
     send_catch (sendEmail_try configured provider d now messageId) now messageId"

section \<open>MessageWorker: health check\<close>






section \<open>MessageWorker: dispatch\<close>




section \<open>Notions used in the statements\<close>

text \<open>The key of a sequence-step message: lead, campaign and template name.\<close>

definition msg_key :: "message \<Rightarrow> nat \<times> nat option \<times> string" where
  "msg_key m = (m_lead_id m, m_campaign_id m, m_template_name m)"

text \<open>Whether \<open>createCampaignMessage\<close> returns, rather than throws, for a template name.\<close>

definition creation_succeeds :: "db \<Rightarrow> timestamp \<Rightarrow> nat \<Rightarrow> nat \<Rightarrow> string \<Rightarrow> bool" where
  "creation_succeeds d now leadId campaignId templateName =
     (\<not> isl (createCampaignMessage d now leadId campaignId (Some templateName)))"

text \<open>
  The steps that are due at \<open>now\<close> and have no message yet under the key of the lead, the
  campaign and the step's template, in any status.
\<close>

definition due_steps ::
  "step list \<Rightarrow> db \<Rightarrow> timestamp \<Rightarrow> timestamp \<Rightarrow> nat \<Rightarrow> nat \<Rightarrow> message_type \<Rightarrow> step list" where
  "due_steps steps d registrationDate now leadId campaignId messageType =
     filter (\<lambda>s. registrationDate + day s * ms_per_day \<le> now
                 \<and> existing_messages d leadId campaignId (step_template messageType s) = [])
       steps"

definition created_steps ::
  "db \<Rightarrow> timestamp \<Rightarrow> timestamp \<Rightarrow> nat \<Rightarrow> nat \<Rightarrow> message_type \<Rightarrow> step list" where
  "created_steps d registrationDate now leadId campaignId messageType =
     filter (\<lambda>s. creation_succeeds d now leadId campaignId (step_template messageType s))
       (due_steps llcSequence d registrationDate now leadId campaignId messageType)"

text \<open>
  The admission capacity as the specification words it, for comparison with
  \<open>generateLimit\<close>: the messages counted are those of the campaign with status sent or
  delivered, sent today and sent this hour.
\<close>

definition spec_admit :: "db \<Rightarrow> timestamp \<Rightarrow> campaign \<Rightarrow> int" where
  "spec_admit d now c =
     (let sentToday = int (length (filter (\<lambda>m. m_campaign_id m = Some (c_id c)
                         \<and> (m_status m = Sent \<or> m_status m = Delivered)
                         \<and> date_cmp (m_sent_at m) (\<lambda>t. t \<ge> DATE_TRUNC_day now)) (messages d)));
          sentThisHour = int (length (filter (\<lambda>m. m_campaign_id m = Some (c_id c)
                         \<and> (m_status m = Sent \<or> m_status m = Delivered)
                         \<and> date_cmp (m_sent_at m) (\<lambda>t. t \<ge> DATE_TRUNC_hour now)) (messages d)))
      in min (min (js_num (c_daily_limit c) - sentToday)
                  (js_num (c_hourly_limit c) - sentThisHour)) 50)"

text \<open>Oldest registration first, a lead with no registration date coming last.\<close>

definition oldest_first :: "lead \<Rightarrow> lead \<Rightarrow> bool" where
  "oldest_first a b = nulls_last_le (l_registration_date a) (l_registration_date b)"


section \<open>Example stores\<close>

definition acme :: lead where
  "acme =
     \<lparr> l_id = 1, l_company_name = ''Acme LLC'', l_state = ''FL'',
       l_business_type = None, l_industry = None, l_registration_date = Some 0,
       l_status = L_active, l_phone = Some ''+15550001'', l_email = Some ''a@acme.test'',
       l_import_date = None \<rparr>"

definition email_sequence :: campaign where
  "email_sequence =
     \<lparr> c_id = 1, c_name = ''LLC Welcome Sequence'', c_message_type = Email,
       c_template_id = None, c_target_states = None,
       c_target_business_types = None, c_target_industries = None,
       c_min_registration_date = None, c_max_registration_date = None,
       c_daily_limit = Some 50, c_hourly_limit = Some 10, c_is_active = True,
       c_total_targeted = 0 \<rparr>"

definition day1_email :: template where
  "day1_email =
     \<lparr> t_id = 1, t_name = ''llc_day1_ein_email'', t_type = Email,
       t_subject = Some ''Your Next Step'', t_is_active = True \<rparr>"

text \<open>One lead registered on day 0, an email sequence campaign and the day-1 email template.\<close>

definition store0 :: db where
  "store0 =
     \<lparr> leads = [acme], campaigns = [email_sequence], message_templates = [day1_email],
       messages = [], opt_outs = [], status_check = messages_status_check \<rparr>"

text \<open>The instant two days after the epoch.\<close>

definition day2 :: timestamp where
  "day2 = 172800000"

text \<open>A pending message of the lead, as \<open>createCampaignMessage\<close> writes it at \<open>day2\<close>.\<close>

definition pending_email :: message where
  "pending_email =
     \<lparr> m_id = 1, m_lead_id = 1, m_message_type = Email,
       m_template_name = ''llc_day1_ein_email'',
       m_recipient_phone = None, m_recipient_email = Some ''a@acme.test'',
       m_subject = Some ''Your Next Step'', m_status = Pending,
       m_sent_at = None, m_failed_at = None, m_failure_reason = None,
       m_provider_message_id = None, m_campaign_id = Some 1,
       m_created_at = day2, m_updated_at = day2 \<rparr>"


text \<open>The store after the day-1 message of the lead has been created.\<close>

definition store1 :: db where
  "store1 = store0\<lparr>messages := [pending_email]\<rparr>"

text \<open>
  Three leads registered on days 10, 20 and 30, stored in the order 20, 30, 10, and
  filters that admit every lead registered within the last 365 days.
\<close>

definition three_leads_store :: db where
  "three_leads_store =
     store0\<lparr>leads := [acme\<lparr>l_id := 2, l_registration_date := Some 20\<rparr>,
                      acme\<lparr>l_id := 3, l_registration_date := Some 30\<rparr>,
                      acme\<lparr>l_id := 1, l_registration_date := Some 10\<rparr>]\<rparr>"

definition day40 :: timestamp where
  "day40 = 3456000000"

definition recent_filters :: filters where
  "recent_filters =
     \<lparr> f_status = Absent, f_excludeOptedOut = Absent,
       f_minRegistrationDays = Given 365, f_maxRegistrationDays = Given 0,
       f_requireContact = Absent, f_states = None, f_businessTypes = None,
       f_industries = None, f_registrationDateFrom = None, f_registrationDateTo = None,
       f_requirePhone = False, f_requireEmail = False, f_excludeContacted = False,
       f_contactedWithinDays = None, f_excludeCampaigns = None \<rparr>"

text \<open>The lead has opted out of SMS, by its phone number, and of nothing else.\<close>

definition sms_opt_out_store :: db where
  "sms_opt_out_store =
     store0\<lparr>opt_outs := [\<lparr> o_phone = Some ''+15550001'', o_email = None, o_lead_id = None,
                             o_opt_out_type = Opt_sms \<rparr>]\<rparr>"

text \<open>
  A campaign with an hourly limit of one, and one message of it created, and still
  pending, in the current hour.
\<close>

definition tight_campaign :: campaign where
  "tight_campaign = email_sequence\<lparr>c_hourly_limit := Some 1\<rparr>"

definition tight_store :: db where
  "tight_store = store1\<lparr>campaigns := [tight_campaign]\<rparr>"

text \<open>A message sent at the first instant of an hour and of a day.\<close>

definition sent_store :: db where
  "sent_store = store0\<lparr>messages := [pending_email\<lparr>m_status := Sent, m_sent_at := Some day2\<rparr>]\<rparr>"

text \<open>A pending SMS message with a recipient phone number.\<close>

definition pending_sms :: message where
  "pending_sms =
     \<lparr> m_id = 1, m_lead_id = 1, m_message_type = Sms,
       m_template_name = ''llc_day1_ein_sms'',
       m_recipient_phone = Some ''+15550001'', m_recipient_email = None,
       m_subject = None, m_status = Pending,
       m_sent_at = None, m_failed_at = None, m_failure_reason = None,
       m_provider_message_id = None, m_campaign_id = Some 1,
       m_created_at = day2, m_updated_at = day2 \<rparr>"

definition sms_store :: db where
  "sms_store = store0\<lparr>messages := [pending_sms]\<rparr>"





section \<open>Verification\<close>

subsection \<open>Message creation and the loop over the steps\<close>


lemma generateMessage_messages:
  "generateMessage (d\<lparr>messages := ms\<rparr>) leadId t = generateMessage d leadId t"
  by (simp add: generateMessage_def cong: list.case_cong)

lemma getCampaignTemplateName_messages:
  "getCampaignTemplateName (d\<lparr>messages := ms\<rparr>) c = getCampaignTemplateName d c"
  by (simp add: getCampaignTemplateName_def cong: list.case_cong option.case_cong)

lemma creation_succeeds_messages:
  "creation_succeeds (d\<lparr>messages := ms\<rparr>) now leadId campaignId t
     = creation_succeeds d now leadId campaignId t"
  by (simp add: creation_succeeds_def createCampaignMessage_def generateMessage_messages
      getCampaignTemplateName_messages Let_def split: list.splits sum.splits if_splits)

lemma createCampaignMessage_Inr:
  assumes "createCampaignMessage d now leadId campaignId (Some t) = Inr (mid, d')" and "t \<noteq> []"
  shows "\<exists>row. d' = d\<lparr>messages := messages d @ [row]\<rparr> \<and> msg_key row = (leadId, Some campaignId, t)
           \<and> m_status row = Pending \<and> m_id row = mid \<and> mid = fresh_id (messages d)"
  using assms
  by (auto simp: createCampaignMessage_def generateMessage_def Let_def msg_key_def
      split: list.splits sum.splits if_splits)


lemma existing_messages_append:
  "existing_messages (d\<lparr>messages := messages d @ [row]\<rparr>) l c t
     = existing_messages d l c t @ (if msg_key row = (l, Some c, t) then [row] else [])"
  by (simp add: existing_messages_def msg_key_def)

lemma sequence_loop_skip:
  "now < reg + day s * ms_per_day \<or> existing_messages d l c (step_template mt s) \<noteq> []
   \<Longrightarrow> sequence_loop (s # ss) reg now l c mt d acc = sequence_loop ss reg now l c mt d acc"
  by (auto simp: Let_def)

lemma sequence_loop_fail:
  "\<not> now < reg + day s * ms_per_day \<Longrightarrow> existing_messages d l c (step_template mt s) = []
   \<Longrightarrow> createCampaignMessage d now l c (Some (step_template mt s)) = Inl e
   \<Longrightarrow> sequence_loop (s # ss) reg now l c mt d acc = sequence_loop ss reg now l c mt d acc"
  by (simp add: Let_def)

lemma sequence_loop_create:
  "\<not> now < reg + day s * ms_per_day \<Longrightarrow> existing_messages d l c (step_template mt s) = []
   \<Longrightarrow> createCampaignMessage d now l c (Some (step_template mt s)) = Inr (mid, d1)
   \<Longrightarrow> sequence_loop (s # ss) reg now l c mt d acc
       = sequence_loop ss reg now l c mt d1
           (acc @ [\<lparr> g_step = name s, g_day = day s, g_messageId = mid,
                     g_templateName = step_template mt s,
                     g_scheduledDate = reg + day s * ms_per_day \<rparr>])"
  by (simp add: Let_def)

lemma due_steps_Cons:
  "due_steps (s # ss) d reg now l c mt
     = (if reg + day s * ms_per_day \<le> now \<and> existing_messages d l c (step_template mt s) = []
        then [s] else []) @ due_steps ss d reg now l c mt"
  by (simp add: due_steps_def)

lemma due_steps_other_key:
  assumes "msg_key row = (l, Some c, t)" and "t \<notin> step_template mt ` set ss"
  shows "due_steps ss (d\<lparr>messages := messages d @ [row]\<rparr>) reg now l c mt
           = due_steps ss d reg now l c mt"
  unfolding due_steps_def
  by (rule filter_cong) (use assms in \<open>auto simp: existing_messages_append\<close>)

lemma sequence_loop_correct:
  assumes "sequence_loop steps reg now l c mt d acc = (acc', d')"
    and "distinct (map (step_template mt) steps)"
    and "\<forall>s\<in>set steps. step_template mt s \<noteq> []"
  shows "\<exists>new. d' = d\<lparr>messages := messages d @ new\<rparr>
          \<and> map msg_key new = map (\<lambda>s. (l, Some c, step_template mt s))
               (filter (\<lambda>s. creation_succeeds d now l c (step_template mt s))
                  (due_steps steps d reg now l c mt))
          \<and> map g_templateName acc' = map g_templateName acc @ map m_template_name new
          \<and> map g_messageId acc' = map g_messageId acc @ map m_id new
          \<and> (\<forall>m\<in>set new. m_status m = Pending)"
  using assms
proof (induction steps arbitrary: d acc)
  case Nil
  then show ?case by (simp add: due_steps_def)
next
  case (Cons s ss)
  let ?t = "step_template mt s"
  have dist: "distinct (map (step_template mt) ss)" and ne: "\<forall>s\<in>set ss. step_template mt s \<noteq> []"
    and t_ne: "?t \<noteq> []" and t_notin: "?t \<notin> step_template mt ` set ss"
    using Cons.prems(2,3) by auto
  show ?case
  proof (cases "now < reg + day s * ms_per_day \<or> existing_messages d l c ?t \<noteq> []")
    case True
    have "sequence_loop ss reg now l c mt d acc = (acc', d')"
      using Cons.prems(1) unfolding sequence_loop_skip[OF True] .
    from Cons.IH[OF this dist ne] True show ?thesis
      by (auto simp: due_steps_Cons)
  next
    case False
    then have due: "\<not> now < reg + day s * ms_per_day" and absent: "existing_messages d l c ?t = []"
      by auto
    show ?thesis
    proof (cases "createCampaignMessage d now l c (Some ?t)")
      case (Inl e)
      have "sequence_loop ss reg now l c mt d acc = (acc', d')"
        using Cons.prems(1) unfolding sequence_loop_fail[OF due absent Inl] .
      moreover have "\<not> creation_succeeds d now l c ?t"
        using Inl by (simp add: creation_succeeds_def)
      ultimately show ?thesis
        using Cons.IH[OF _ dist ne] due absent by (auto simp: due_steps_Cons)
    next
      case (Inr p)
      obtain mid d1 where p: "p = (mid, d1)" by (cases p)
      from createCampaignMessage_Inr[OF Inr[unfolded p] t_ne]
      obtain row where row: "d1 = d\<lparr>messages := messages d @ [row]\<rparr>"
        "msg_key row = (l, Some c, ?t)" "m_status row = Pending" "m_id row = mid"
        by blast
      let ?g = "\<lparr> g_step = name s, g_day = day s, g_messageId = mid, g_templateName = ?t,
                   g_scheduledDate = reg + day s * ms_per_day \<rparr>"
      have loop: "sequence_loop ss reg now l c mt d1 (acc @ [?g]) = (acc', d')"
        using Cons.prems(1) unfolding sequence_loop_create[OF due absent Inr[unfolded p]] .
      from Cons.IH[OF loop dist ne] obtain new where new:
        "d' = d1\<lparr>messages := messages d1 @ new\<rparr>"
        "map msg_key new = map (\<lambda>s. (l, Some c, step_template mt s))
               (filter (\<lambda>s. creation_succeeds d1 now l c (step_template mt s))
                  (due_steps ss d1 reg now l c mt))"
        "map g_templateName acc' = map g_templateName (acc @ [?g]) @ map m_template_name new"
        "map g_messageId acc' = map g_messageId (acc @ [?g]) @ map m_id new"
        "\<forall>m\<in>set new. m_status m = Pending"
        by blast
      have succ: "creation_succeeds d now l c ?t"
        using Inr by (simp add: creation_succeeds_def)
      note cs = creation_succeeds_messages
      note ds = due_steps_other_key[OF row(2) t_notin]
      have tn: "m_template_name row = ?t"
        using row(2) by (simp add: msg_key_def)
      show ?thesis
        apply (rule exI[of _ "row # new"])
        using new row due absent succ tn
        by (simp add: cs ds due_steps_Cons)
    qed
  qed
qed


lemma llcSequence_templates:
  "distinct (map (step_template mt) llcSequence)"
  "\<forall>s\<in>set llcSequence. step_template mt s \<noteq> []"
  by (cases mt; simp add: llcSequence_def step_template_def)+

lemma generateSequenceMessages_run:
  assumes "generateSequenceMessages d now leadId campaignId mt = Inr (r, d')"
  shows "\<exists>l ls rd new. filter (\<lambda>l. l_id l = leadId) (leads d) = l # ls
           \<and> l_registration_date l = Some rd
           \<and> d' = d\<lparr>messages := messages d @ new\<rparr>
           \<and> map msg_key new = map (\<lambda>s. (leadId, Some campaignId, step_template mt s))
                (created_steps d (date_to_timestamp rd) now leadId campaignId mt)
           \<and> map g_templateName (r_generatedMessages r) = map m_template_name new
           \<and> map g_messageId (r_generatedMessages r) = map m_id new
           \<and> (\<forall>m\<in>set new. m_status m = Pending)"
proof -
  from assms obtain l ls rd where l: "filter (\<lambda>l. l_id l = leadId) (leads d) = l # ls"
    and rd: "l_registration_date l = Some rd"
    by (auto simp: generateSequenceMessages_def split: list.splits option.splits)
  obtain acc' d'' where loop:
    "sequence_loop llcSequence (date_to_timestamp rd) now leadId campaignId mt d [] = (acc', d'')"
    by (cases "sequence_loop llcSequence (date_to_timestamp rd) now leadId campaignId mt d []")
  from assms l rd loop have eq: "d' = d''" "r_generatedMessages r = acc'"
    by (auto simp: generateSequenceMessages_def Let_def)
  from sequence_loop_correct[OF loop llcSequence_templates] eq l rd
  show ?thesis by (auto simp: created_steps_def)
qed


lemma existing_messages_key:
  "existing_messages d l c t = filter (\<lambda>m. msg_key m = (l, Some c, t)) (messages d)"
  by (simp add: existing_messages_def msg_key_def)

lemma filter_key_distinct:
  "distinct (map f xs) \<Longrightarrow> length (filter (\<lambda>x. f x = k) xs) = (if k \<in> f ` set xs then 1 else 0)"
  by (induction xs) (auto simp: filter_empty_conv)

lemma created_keys_distinct:
  "distinct (map (\<lambda>s. (l, Some c, step_template mt s)) (created_steps d reg now l c mt))"
proof -
  have "distinct (map (step_template mt) (created_steps d reg now l c mt))"
    unfolding created_steps_def due_steps_def
    by (intro distinct_map_filter llcSequence_templates(1))
  then show ?thesis by (simp add: distinct_map inj_on_def)
qed

lemma created_steps_absent:
  "s \<in> set (created_steps d reg now l c mt) \<Longrightarrow> existing_messages d l c (step_template mt s) = []"
  by (simp add: created_steps_def due_steps_def)


lemma existing_messages_extend:
  "existing_messages (d\<lparr>messages := messages d @ new\<rparr>) l c t
     = existing_messages d l c t @ filter (\<lambda>m. msg_key m = (l, Some c, t)) new"
  by (simp add: existing_messages_key)



subsection \<open>C1: sequence generation is idempotent\<close>



subsection \<open>C6: the steps for which sequence generation creates a message\<close>





subsection \<open>C4: no uniqueness constraint in the store\<close>

lemma createCampaignMessage_again:
  assumes "createCampaignMessage d now leadId campaignId (Some t) = Inr (mid, d1)" and "t \<noteq> []"
  shows "\<exists>mid2 row2. createCampaignMessage d1 now2 leadId campaignId (Some t)
            = Inr (mid2, d1\<lparr>messages := messages d1 @ [row2]\<rparr>)
          \<and> msg_key row2 = (leadId, Some campaignId, t)"
proof -
  from createCampaignMessage_Inr[OF assms] obtain row where
    d1: "d1 = d\<lparr>messages := messages d @ [row]\<rparr>" by blast
  have "creation_succeeds d now leadId campaignId t"
    using assms(1) by (simp add: creation_succeeds_def)
  then have "creation_succeeds d now2 leadId campaignId t"
    by (auto simp: creation_succeeds_def createCampaignMessage_def Let_def
        split: list.splits sum.splits if_splits)
  then have "creation_succeeds d1 now2 leadId campaignId t"
    unfolding d1 by (simp only: creation_succeeds_messages)
  then obtain mid2 d2 where again:
    "createCampaignMessage d1 now2 leadId campaignId (Some t) = Inr (mid2, d2)"
    by (cases "createCampaignMessage d1 now2 leadId campaignId (Some t)")
       (auto simp: creation_succeeds_def)
  from createCampaignMessage_Inr[OF again assms(2)] again show ?thesis by blast
qed

text \<open>
  Claim C4, as amended. The store has no uniqueness constraint on (lead_id, campaign_id,
  template_name): whenever \<open>createCampaignMessage\<close> has inserted a message it does so again,
  at any later instant, and the table then holds two more rows under the key than before.
  Duplicates of a sequence step are kept out by the check-then-insert of
  \<open>generateSequenceMessages\<close> alone: for every store, a run adds no row under a key of the
  lead and campaign that already has one, and at most one row under any other.
\<close>

theorem duplicates_kept_out_by_application_check_only:
  "(createCampaignMessage d now leadId campaignId (Some t) = Inr (mid, d1) \<and> t \<noteq> []
      \<longrightarrow> (\<exists>mid2 d2. createCampaignMessage d1 now2 leadId campaignId (Some t) = Inr (mid2, d2)
             \<and> length (existing_messages d2 leadId campaignId t)
                 = length (existing_messages d leadId campaignId t) + 2))
   \<and> (generateSequenceMessages d now leadId campaignId mt = Inr (r, d')
      \<longrightarrow> (\<forall>u. length (existing_messages d' leadId campaignId u)
                 \<le> max 1 (length (existing_messages d leadId campaignId u))))"
proof (intro conjI impI)
  assume a: "createCampaignMessage d now leadId campaignId (Some t) = Inr (mid, d1) \<and> t \<noteq> []"
  from createCampaignMessage_Inr[of d now leadId campaignId t mid d1] a obtain row where
    d1: "d1 = d\<lparr>messages := messages d @ [row]\<rparr>"
    and row: "msg_key row = (leadId, Some campaignId, t)" by blast
  from createCampaignMessage_again[of d now leadId campaignId t mid d1 now2] a
  obtain mid2 row2 where again: "createCampaignMessage d1 now2 leadId campaignId (Some t)
            = Inr (mid2, d1\<lparr>messages := messages d1 @ [row2]\<rparr>)"
    and row2: "msg_key row2 = (leadId, Some campaignId, t)" by blast
  have "length (existing_messages (d1\<lparr>messages := messages d1 @ [row2]\<rparr>) leadId campaignId t)
          = length (existing_messages d leadId campaignId t) + 2"
    using row row2 unfolding d1 by (simp add: existing_messages_key)
  with again show "\<exists>mid2 d2. createCampaignMessage d1 now2 leadId campaignId (Some t) = Inr (mid2, d2)
             \<and> length (existing_messages d2 leadId campaignId t)
                 = length (existing_messages d leadId campaignId t) + 2"
    by blast
next
  assume run: "generateSequenceMessages d now leadId campaignId mt = Inr (r, d')"
  from generateSequenceMessages_run[OF run] obtain rd new where
    d': "d' = d\<lparr>messages := messages d @ new\<rparr>"
    and keys: "map msg_key new = map (\<lambda>s. (leadId, Some campaignId, step_template mt s))
                (created_steps d (date_to_timestamp rd) now leadId campaignId mt)"
    by blast
  have dist: "distinct (map msg_key new)"
    unfolding keys by (rule created_keys_distinct)
  show "\<forall>u. length (existing_messages d' leadId campaignId u)
                 \<le> max 1 (length (existing_messages d leadId campaignId u))"
  proof
    fix u :: string
    let ?k = "(leadId, Some campaignId, u)"
    have ex: "existing_messages d' leadId campaignId u
        = existing_messages d leadId campaignId u @ filter (\<lambda>m. msg_key m = ?k) new"
      unfolding d' by (rule existing_messages_extend)
    show "length (existing_messages d' leadId campaignId u)
                 \<le> max 1 (length (existing_messages d leadId campaignId u))"
    proof (cases "?k \<in> msg_key ` set new")
      case False
      then show ?thesis by (simp add: ex filter_key_distinct[OF dist])
    next
      case True
      then have "?k \<in> set (map msg_key new)" by simp
      then obtain s where "s \<in> set (created_steps d (date_to_timestamp rd) now leadId campaignId mt)"
        "u = step_template mt s"
        unfolding keys by auto
      then have "existing_messages d leadId campaignId u = []"
        by (simp add: created_steps_absent)
      then show ?thesis using True by (simp add: ex filter_key_distinct[OF dist])
    qed
  qed
qed

lemma store0_creation:
  "createCampaignMessage store0 day2 1 1 (Some ''llc_day1_ein_email'') = Inr (1, store1)"
  "createCampaignMessage store1 day2 1 1 (Some ''llc_day1_ein_email'')
     = Inr (2, store0\<lparr>messages := [pending_email, pending_email\<lparr>m_id := 2\<rparr>]\<rparr>)"
  by (simp_all add: store0_def store1_def acme_def email_sequence_def day1_email_def
      pending_email_def day2_def createCampaignMessage_def generateMessage_def fresh_id_def
      messages_status_check_def Let_def)

theorem duplicates_kept_out_by_application_check_only_witness:
  "createCampaignMessage store0 day2 1 1 (Some ''llc_day1_ein_email'') = Inr (1, store1)
   \<and> (\<exists>mid2 d2. createCampaignMessage store1 day2 1 1 (Some ''llc_day1_ein_email'') = Inr (mid2, d2)
         \<and> length (existing_messages d2 1 1 ''llc_day1_ein_email'') = 2)
   \<and> (\<exists>r. generateSequenceMessages store0 day2 1 1 Email = Inr (r, store1))
   \<and> (\<forall>t. length (existing_messages store1 1 1 t) \<le> 1)"
proof -
  have run: "\<exists>r. generateSequenceMessages store0 day2 1 1 Email = Inr (r, store1)"
    by (simp add: generateSequenceMessages_def store0_def store1_def acme_def email_sequence_def
        day1_email_def pending_email_def day2_def llcSequence_def existing_messages_def
        step_template_def createCampaignMessage_def generateMessage_def fresh_id_def
        messages_status_check_def date_to_timestamp_def ms_per_day_def Let_def)
  then obtain r where r: "generateSequenceMessages store0 day2 1 1 Email = Inr (r, store1)" ..
  have empty: "existing_messages store0 l c t = []" for l c t
    by (simp add: existing_messages_def store0_def)
  note inst = duplicates_kept_out_by_application_check_only
    [of store0 day2 1 1 "''llc_day1_ein_email''" 1 store1 day2 Email r store1]
  from inst store0_creation(1) have
    "\<exists>mid2 d2. createCampaignMessage store1 day2 1 1 (Some ''llc_day1_ein_email'') = Inr (mid2, d2)
         \<and> length (existing_messages d2 1 1 ''llc_day1_ein_email'') = 2"
    by (simp add: empty numeral_2_eq_2)
  moreover from inst r have "\<forall>t. length (existing_messages store1 1 1 t) \<le> 1"
    by (simp add: empty)
  ultimately show ?thesis using store0_creation(1) run by blast
qed

text \<open>
  The claim as stated fails: the store accepts a second insert under the same key. Two
  calls of \<open>createCampaignMessage\<close> for the same lead, campaign and template leave two rows
  with the same (lead_id, campaign_id, template_name).
\<close>

theorem store_accepts_duplicate_key:
  "createCampaignMessage store0 day2 1 1 (Some ''llc_day1_ein_email'') = Inr (1, store1)
   \<and> createCampaignMessage store1 day2 1 1 (Some ''llc_day1_ein_email'')
       = Inr (2, store0\<lparr>messages := [pending_email, pending_email\<lparr>m_id := 2\<rparr>]\<rparr>)
   \<and> msg_key (pending_email\<lparr>m_id := 2\<rparr>) = msg_key pending_email"
  using store0_creation by (simp add: msg_key_def)

subsection \<open>Ordering of the selected leads\<close>

lemma set_insort_by: "set (insort_by le x xs) = insert x (set xs)"
  by (induction xs) auto

lemma set_order_by: "set (order_by le xs) = set xs"
  unfolding order_by_def by (induction xs) (auto simp: set_insort_by)

lemma sorted_wrt_insort_by:
  assumes total: "\<And>a b. le a b \<or> le b a" and trans: "\<And>a b c. le a b \<Longrightarrow> le b c \<Longrightarrow> le a c"
  shows "sorted_wrt le xs \<Longrightarrow> sorted_wrt le (insort_by le x xs)"
proof (induction xs)
  case Nil
  then show ?case by simp
next
  case (Cons y ys)
  show ?case
  proof (cases "le x y")
    case True
    then show ?thesis using Cons.prems trans by auto
  next
    case False
    then have "le y x" using total by blast
    then show ?thesis using Cons False by (auto simp: set_insort_by)
  qed
qed

lemma sorted_wrt_order_by:
  assumes "\<And>a b. le a b \<or> le b a" and "\<And>a b c. le a b \<Longrightarrow> le b c \<Longrightarrow> le a c"
  shows "sorted_wrt le (order_by le xs)"
  unfolding order_by_def
  by (induction xs) (auto intro: sorted_wrt_insort_by[OF assms])

lemma nulls_last_le_total: "nulls_last_le a b \<or> nulls_last_le b a"
  by (cases a; cases b) auto

lemma nulls_last_le_trans: "nulls_last_le a b \<Longrightarrow> nulls_last_le b c \<Longrightarrow> nulls_last_le a c"
  by (cases a; cases b; cases c) auto

lemma oldest_first_total: "oldest_first a b \<or> oldest_first b a"
  unfolding oldest_first_def by (rule nulls_last_le_total)

lemma oldest_first_trans: "oldest_first a b \<Longrightarrow> oldest_first b c \<Longrightarrow> oldest_first a c"
  unfolding oldest_first_def by (rule nulls_last_le_trans)

lemma oldest_first_order:
  "sorted_wrt oldest_first (order_by oldest_first xs)"
  "sorted_wrt (\<lambda>a b. oldest_first b a) (order_by (\<lambda>a b. oldest_first b a) xs)"
proof -
  show "sorted_wrt oldest_first (order_by oldest_first xs)"
    by (rule sorted_wrt_order_by[OF oldest_first_total oldest_first_trans])
  show "sorted_wrt (\<lambda>a b. oldest_first b a) (order_by (\<lambda>a b. oldest_first b a) xs)"
  proof (rule sorted_wrt_order_by)
    show "oldest_first b a \<or> oldest_first a b" for a b
      by (rule oldest_first_total)
    show "oldest_first b a \<Longrightarrow> oldest_first c b \<Longrightarrow> oldest_first c a" for a b c
      by (rule oldest_first_trans)
  qed
qed

lemma sorted_wrt_take_drop:
  "sorted_wrt le xs \<Longrightarrow> sorted_wrt le (take n (drop k xs))"
  by simp

lemma lead_le_registration_date:
  "column \<notin> set [''company_name'', ''state'', ''import_date''] \<Longrightarrow> lead_le column = oldest_first"
  by (auto simp: lead_le_def oldest_first_def fun_eq_iff)

lemma getFilteredLeads_ascending:
  assumes "is_ASC (o_orderDirection opts)"
    and "o_orderBy opts \<notin> set [''company_name'', ''state'', ''import_date'']"
  shows "sorted_wrt oldest_first (fl_leads (getFilteredLeads d now f opts))"
proof -
  have "lead_le (if o_orderBy opts \<in> set [''registration_date'', ''company_name'', ''state'', ''import_date'']
                then o_orderBy opts else ''registration_date'') = oldest_first"
    by (rule lead_le_registration_date) (use assms(2) in auto)
  then show ?thesis
    using assms(1) by (simp add: getFilteredLeads_def Let_def sorted_wrt_take_drop oldest_first_order)
qed

lemma getFilteredLeads_descending:
  assumes "\<not> is_ASC (o_orderDirection opts)"
    and "o_orderBy opts \<notin> set [''company_name'', ''state'', ''import_date'']"
  shows "sorted_wrt (\<lambda>a b. oldest_first b a) (fl_leads (getFilteredLeads d now f opts))"
proof -
  have "lead_le (if o_orderBy opts \<in> set [''registration_date'', ''company_name'', ''state'', ''import_date'']
                then o_orderBy opts else ''registration_date'') = oldest_first"
    by (rule lead_le_registration_date) (use assms(2) in auto)
  then show ?thesis
    using assms(1) by (simp add: getFilteredLeads_def Let_def sorted_wrt_take_drop oldest_first_order)
qed


lemma sequence_leads_ascending:
  "sorted_wrt oldest_first (sequence_leads d now c limit)"
  unfolding sequence_leads_def oldest_first_def[symmetric, abs_def]
  by (intro sorted_wrt_take oldest_first_order(1))

subsection \<open>C9: the order of targeting selection\<close>

text \<open>
  Claim C9, as amended. Targeting selection returns the leads in the order its caller
  asks for. \<open>getFilteredLeads\<close> returns them oldest-registration-first when the direction
  is ASC and the column is the registration date, which is what \<open>getLeadsForCampaign\<close>
  asks for; so does the lead query of \<open>processSingleSequenceCampaign\<close>. With its default
  options \<open>getFilteredLeads\<close> returns them newest-registration-first.
\<close>

theorem targeting_order:
  "(is_ASC (o_orderDirection opts)
      \<and> o_orderBy opts \<notin> set [''company_name'', ''state'', ''import_date'']
      \<longrightarrow> sorted_wrt oldest_first (fl_leads (getFilteredLeads d now f opts)))
   \<and> (getLeadsForCampaign d now campaignId limit = Inr res
      \<longrightarrow> sorted_wrt oldest_first (fl_leads res))
   \<and> sorted_wrt oldest_first (sequence_leads d now c limit)
   \<and> sorted_wrt (\<lambda>a b. oldest_first b a) (fl_leads (getFilteredLeads d now f default_options))"
proof (intro conjI impI)
  assume "is_ASC (o_orderDirection opts)
      \<and> o_orderBy opts \<notin> set [''company_name'', ''state'', ''import_date'']"
  then show "sorted_wrt oldest_first (fl_leads (getFilteredLeads d now f opts))"
    using getFilteredLeads_ascending by blast
next
  assume "getLeadsForCampaign d now campaignId limit = Inr res"
  then obtain c' where "res = getFilteredLeads d now (campaign_filters c')
                 \<lparr> o_limit = limit, o_offset = 0, o_orderBy = ''registration_date'',
                   o_orderDirection = ''ASC'' \<rparr>"
    by (auto simp: getLeadsForCampaign_def split: list.splits)
  then show "sorted_wrt oldest_first (fl_leads res)"
    by (simp add: getFilteredLeads_ascending is_ASC_def)
next
  show "sorted_wrt oldest_first (sequence_leads d now c limit)"
    by (rule sequence_leads_ascending)
next
  show "sorted_wrt (\<lambda>a b. oldest_first b a) (fl_leads (getFilteredLeads d now f default_options))"
    by (rule getFilteredLeads_descending) (simp_all add: default_options_def is_ASC_def)
qed

lemma three_leads_selection:
  "filter (buildWhereClause three_leads_store day40 recent_filters) (leads three_leads_store)
     = leads three_leads_store"
  by (simp add: three_leads_store_def store0_def acme_def day40_def recent_filters_def
      buildWhereClause_def opted_out_def CURRENT_DATE_def ms_per_day_def)

theorem targeting_order_witness:
  "is_ASC ''ASC''
   \<and> map l_id (fl_leads (getFilteredLeads three_leads_store day40 recent_filters
                          (default_options\<lparr>o_orderDirection := ''ASC''\<rparr>))) = [1, 2, 3]
   \<and> sorted_wrt oldest_first
        (fl_leads (getFilteredLeads three_leads_store day40 recent_filters
                     (default_options\<lparr>o_orderDirection := ''ASC''\<rparr>)))
   \<and> getLeadsForCampaign three_leads_store day40 1 50 = Inr \<lparr> fl_leads = [], fl_total = 0 \<rparr>
   \<and> sorted_wrt oldest_first (fl_leads \<lparr> fl_leads = [], fl_total = 0 \<rparr>)"
proof -
  have asc: "is_ASC ''ASC''" by (simp add: is_ASC_def)
  have ids: "map l_id (fl_leads (getFilteredLeads three_leads_store day40 recent_filters
                          (default_options\<lparr>o_orderDirection := ''ASC''\<rparr>))) = [1, 2, 3]"
    unfolding getFilteredLeads_def Let_def three_leads_selection
    by (simp add: asc default_options_def three_leads_store_def acme_def order_by_def lead_le_def)
  have campaign: "getLeadsForCampaign three_leads_store day40 1 50
      = Inr \<lparr> fl_leads = [], fl_total = 0 \<rparr>"
    by (simp add: getLeadsForCampaign_def getFilteredLeads_def Let_def three_leads_store_def
        store0_def acme_def email_sequence_def day40_def campaign_filters_def
        buildWhereClause_def CURRENT_DATE_def ms_per_day_def order_by_def is_ASC_def)
  from targeting_order[of "default_options\<lparr>o_orderDirection := ''ASC''\<rparr>" three_leads_store
      day40 recent_filters 1 50 "\<lparr> fl_leads = [], fl_total = 0 \<rparr>"] asc campaign
  have "sorted_wrt oldest_first
        (fl_leads (getFilteredLeads three_leads_store day40 recent_filters
                     (default_options\<lparr>o_orderDirection := ''ASC''\<rparr>)))"
    and "sorted_wrt oldest_first (fl_leads \<lparr> fl_leads = [], fl_total = 0 \<rparr>)"
    by (simp_all add: default_options_def)
  with asc ids campaign show ?thesis by blast
qed

text \<open>
  The claim as stated fails for the selection with its default options: of three leads
  registered on days 10, 20 and 30 it returns the one of day 30 first.
\<close>

theorem default_selection_newest_first:
  "map l_registration_date
     (fl_leads (getFilteredLeads three_leads_store day40 recent_filters default_options))
   = [Some 30, Some 20, Some 10]"
  unfolding getFilteredLeads_def Let_def three_leads_selection
  by (simp add: default_options_def is_ASC_def three_leads_store_def acme_def order_by_def
      lead_le_def)

subsection \<open>Leads with an opt-out\<close>

lemma getFilteredLeads_subset:
  "set (fl_leads (getFilteredLeads d now f opts)) \<subseteq> {l \<in> set (leads d). buildWhereClause d now f l}"
proof -
  have "set (take n (drop k (order_by le (filter P xs)))) \<subseteq> {l \<in> set xs. P l}" for n k le P
    and xs :: "lead list"
    using set_take_subset[of n "drop k (order_by le (filter P xs))"]
      set_drop_subset[of k "order_by le (filter P xs)"]
    by (auto simp: set_order_by)
  then show ?thesis
    by (simp add: getFilteredLeads_def Let_def)
qed

lemma buildWhereClause_excludes:
  "merged (Some True) (f_excludeOptedOut f) = Some True \<Longrightarrow> buildWhereClause d now f l
   \<Longrightarrow> \<not> opted_out d l"
  by (simp add: buildWhereClause_def)

lemma sequence_leads_subset:
  "set (sequence_leads d now c limit) \<subseteq> {l \<in> set (leads d). \<not> opted_out d l}"
proof -
  have "set (take n (order_by le (filter P xs))) \<subseteq> {l \<in> set xs. P l}" for n le P
    and xs :: "lead list"
    using set_take_subset[of n "order_by le (filter P xs)"] by (auto simp: set_order_by)
  from this[of limit _ _ "leads d"] show ?thesis
    unfolding sequence_leads_def by fastforce
qed

lemma generateSequenceMessages_lead:
  assumes "generateSequenceMessages d now leadId campaignId mt = Inr (r, d')"
  shows "\<exists>new. d' = d\<lparr>messages := messages d @ new\<rparr>
           \<and> (\<forall>m\<in>set new. m_lead_id m = leadId \<and> m_campaign_id m = Some campaignId)"
proof -
  from generateSequenceMessages_run[OF assms] obtain rd new where
    d': "d' = d\<lparr>messages := messages d @ new\<rparr>"
    and keys: "map msg_key new = map (\<lambda>s. (leadId, Some campaignId, step_template mt s))
                (created_steps d (date_to_timestamp rd) now leadId campaignId mt)"
    by blast
  have "m_lead_id m = leadId \<and> m_campaign_id m = Some campaignId" if "m \<in> set new" for m
  proof -
    from that have "msg_key m \<in> set (map msg_key new)" by simp
    then show ?thesis unfolding keys by (auto simp: msg_key_def)
  qed
  with d' show ?thesis by blast
qed

lemma sequence_campaign_loop_messages:
  "sequence_campaign_loop ls now c d n = (n', d')
   \<Longrightarrow> \<exists>new. d' = d\<lparr>messages := messages d @ new\<rparr>
          \<and> (\<forall>m\<in>set new. m_lead_id m \<in> l_id ` set ls \<and> m_campaign_id m = Some (c_id c))"
proof (induction ls arbitrary: d n)
  case Nil
  then show ?case by simp
next
  case (Cons l ls)
  show ?case
  proof (cases "generateSequenceMessages d now (l_id l) (c_id c) (c_message_type c)")
    case (Inl e)
    with Cons.prems have "sequence_campaign_loop ls now c d n = (n', d')" by simp
    from Cons.IH[OF this] show ?thesis by auto
  next
    case (Inr p)
    obtain result d1 where p: "p = (result, d1)" by (cases p)
    from generateSequenceMessages_lead[OF Inr[unfolded p]] obtain new1 where
      d1: "d1 = d\<lparr>messages := messages d @ new1\<rparr>"
      and new1: "\<forall>m\<in>set new1. m_lead_id m = l_id l \<and> m_campaign_id m = Some (c_id c)"
      by blast
    from Cons.prems Inr p obtain n1 where "sequence_campaign_loop ls now c d1 n1 = (n', d')"
      by simp
    from Cons.IH[OF this] obtain new2 where
      d': "d' = d1\<lparr>messages := messages d1 @ new2\<rparr>"
      and new2: "\<forall>m\<in>set new2. m_lead_id m \<in> l_id ` set ls \<and> m_campaign_id m = Some (c_id c)"
      by blast
    have "d' = d\<lparr>messages := messages d @ (new1 @ new2)\<rparr>"
      by (simp add: d' d1)
    moreover have "\<forall>m\<in>set (new1 @ new2).
        m_lead_id m \<in> l_id ` set (l # ls) \<and> m_campaign_id m = Some (c_id c)"
      using new1 new2 by auto
    ultimately show ?thesis by blast
  qed
qed

subsection \<open>C2: opted-out leads are left out of generation\<close>

text \<open>
  Claim C2, as amended. Generation never selects, and so never creates a message for, a
  lead that has an opt-out row: a row with the lead's phone and type sms or all, a row
  with the lead's email and type email or all, or a row with the lead's id, of any type.
  This holds for the filter of \<open>buildWhereClause\<close> (unless the caller switches
  \<open>excludeOptedOut\<close> off), hence for \<open>getLeadsForCampaign\<close>, and for every message that
  \<open>processSingleSequenceCampaign\<close> adds to the store. The exclusion is by lead and not by
  channel: it does not depend on the message type of the campaign.
\<close>

theorem opted_out_leads_excluded:
  "(opted_out d l
      = (\<exists>r\<in>set (opt_outs d).
           (sql_eq (o_phone r) (l_phone l) \<and> (o_opt_out_type r = Opt_sms \<or> o_opt_out_type r = Opt_all))
           \<or> (sql_eq (o_email r) (l_email l)
               \<and> (o_opt_out_type r = Opt_email \<or> o_opt_out_type r = Opt_all))
           \<or> o_lead_id r = Some (l_id l)))
   \<and> (merged (Some True) (f_excludeOptedOut f) = Some True
      \<longrightarrow> (\<forall>x\<in>set (fl_leads (getFilteredLeads d now f opts)). \<not> opted_out d x))
   \<and> (getLeadsForCampaign d now campaignId limit = Inr res
      \<longrightarrow> (\<forall>x\<in>set (fl_leads res). \<not> opted_out d x))
   \<and> (distinct (map l_id (leads d)) \<and> processSingleSequenceCampaign d now c limit = (n, d')
      \<longrightarrow> (\<exists>new. d' = d\<lparr>messages := messages d @ new\<rparr>
             \<and> (\<forall>m\<in>set new. (\<exists>x\<in>set (leads d). l_id x = m_lead_id m)
                   \<and> (\<forall>x\<in>set (leads d). l_id x = m_lead_id m \<longrightarrow> \<not> opted_out d x))))"
proof (intro conjI impI)
  show "opted_out d l
      = (\<exists>r\<in>set (opt_outs d).
           (sql_eq (o_phone r) (l_phone l) \<and> (o_opt_out_type r = Opt_sms \<or> o_opt_out_type r = Opt_all))
           \<or> (sql_eq (o_email r) (l_email l)
               \<and> (o_opt_out_type r = Opt_email \<or> o_opt_out_type r = Opt_all))
           \<or> o_lead_id r = Some (l_id l))"
    by (simp add: opted_out_def opt_out_matches_def list_ex_iff)
next
  assume "merged (Some True) (f_excludeOptedOut f) = Some True"
  then show "\<forall>x\<in>set (fl_leads (getFilteredLeads d now f opts)). \<not> opted_out d x"
    using getFilteredLeads_subset[of d now f opts] buildWhereClause_excludes[of f d now]
    by blast
next
  assume "getLeadsForCampaign d now campaignId limit = Inr res"
  then obtain c' where res: "res = getFilteredLeads d now (campaign_filters c')
                 \<lparr> o_limit = limit, o_offset = 0, o_orderBy = ''registration_date'',
                   o_orderDirection = ''ASC'' \<rparr>"
    by (auto simp: getLeadsForCampaign_def split: list.splits)
  have "merged (Some True) (f_excludeOptedOut (campaign_filters c')) = Some True"
    by (simp add: campaign_filters_def)
  then show "\<forall>x\<in>set (fl_leads res). \<not> opted_out d x"
    unfolding res
    using getFilteredLeads_subset buildWhereClause_excludes[of "campaign_filters c'" d now]
    by blast
next
  assume a: "distinct (map l_id (leads d)) \<and> processSingleSequenceCampaign d now c limit = (n, d')"
  then have "sequence_campaign_loop (sequence_leads d now c limit) now c d 0 = (n, d')"
    by (simp add: processSingleSequenceCampaign_def)
  from sequence_campaign_loop_messages[OF this] obtain new where
    d': "d' = d\<lparr>messages := messages d @ new\<rparr>"
    and new: "\<forall>m\<in>set new. m_lead_id m \<in> l_id ` set (sequence_leads d now c limit)"
    by blast
  have "(\<exists>x\<in>set (leads d). l_id x = m_lead_id m)
        \<and> (\<forall>x\<in>set (leads d). l_id x = m_lead_id m \<longrightarrow> \<not> opted_out d x)" if "m \<in> set new" for m
  proof -
    from new that obtain s where s: "s \<in> set (sequence_leads d now c limit)" "l_id s = m_lead_id m"
      by force
    with sequence_leads_subset[of d now c limit] have sd: "s \<in> set (leads d)" "\<not> opted_out d s"
      by auto
    have "x = s" if "x \<in> set (leads d)" "l_id x = m_lead_id m" for x
      using a that sd(1) s(2) by (auto simp: distinct_map inj_on_def)
    with sd s(2) show ?thesis by blast
  qed
  with d' show "\<exists>new. d' = d\<lparr>messages := messages d @ new\<rparr>
             \<and> (\<forall>m\<in>set new. (\<exists>x\<in>set (leads d). l_id x = m_lead_id m)
                   \<and> (\<forall>x\<in>set (leads d). l_id x = m_lead_id m \<longrightarrow> \<not> opted_out d x))"
    by blast
qed

lemma store0_campaign_tick:
  "processSingleSequenceCampaign store0 day2 email_sequence 50 = (1, store1)"
  by (simp add: processSingleSequenceCampaign_def sequence_leads_def order_by_def opted_out_def
      generateSequenceMessages_def store0_def store1_def acme_def email_sequence_def
      day1_email_def pending_email_def day2_def llcSequence_def existing_messages_def
      step_template_def createCampaignMessage_def generateMessage_def fresh_id_def
      messages_status_check_def date_to_timestamp_def CURRENT_DATE_def ms_per_day_def Let_def)

theorem opted_out_leads_excluded_witness:
  "merged (Some True) (f_excludeOptedOut recent_filters) = Some True
   \<and> list_all (\<lambda>x. \<not> opted_out store0 x)
         (fl_leads (getFilteredLeads store0 day2 recent_filters default_options))
   \<and> distinct (map l_id (leads store0))
   \<and> processSingleSequenceCampaign store0 day2 email_sequence 50 = (1, store1)
   \<and> (\<exists>new. store1 = store0\<lparr>messages := messages store0 @ new\<rparr>
         \<and> (\<forall>m\<in>set new. (\<exists>x\<in>set (leads store0). l_id x = m_lead_id m)
               \<and> (\<forall>x\<in>set (leads store0). l_id x = m_lead_id m \<longrightarrow> \<not> opted_out store0 x)))"
proof -
  have f: "merged (Some True) (f_excludeOptedOut recent_filters) = Some True"
    by (simp add: recent_filters_def)
  have dist: "distinct (map l_id (leads store0))"
    by (simp add: store0_def)
  note inst = opted_out_leads_excluded[where d = store0 and f = recent_filters and now = day2
      and opts = default_options and c = email_sequence and limit = 50 and n = 1
      and d' = store1]
  from inst f have "list_all (\<lambda>x. \<not> opted_out store0 x)
         (fl_leads (getFilteredLeads store0 day2 recent_filters default_options))"
    unfolding list_all_iff by blast
  moreover from inst dist store0_campaign_tick
  have "\<exists>new. store1 = store0\<lparr>messages := messages store0 @ new\<rparr>
         \<and> (\<forall>m\<in>set new. (\<exists>x\<in>set (leads store0). l_id x = m_lead_id m)
               \<and> (\<forall>x\<in>set (leads store0). l_id x = m_lead_id m \<longrightarrow> \<not> opted_out store0 x))"
    by blast
  ultimately show ?thesis using f dist store0_campaign_tick by blast
qed

text \<open>
  The claim as stated fails in its second half: the exclusion is not specific to the
  channel. A lead that has opted out of SMS only, by its phone number, is left out of the
  email sequence campaign too, whereas the same lead without the opt-out row gets its
  day-1 email message.
\<close>

theorem sms_opt_out_blocks_email_generation:
  "processSingleSequenceCampaign sms_opt_out_store day2 email_sequence 50 = (0, sms_opt_out_store)
   \<and> processSingleSequenceCampaign store0 day2 email_sequence 50 = (1, store1)"
proof -
  have "processSingleSequenceCampaign sms_opt_out_store day2 email_sequence 50
          = (0, sms_opt_out_store)"
    by (simp add: processSingleSequenceCampaign_def sequence_leads_def order_by_def opted_out_def
        opt_out_matches_def sms_opt_out_store_def store0_def acme_def email_sequence_def
        day2_def CURRENT_DATE_def ms_per_day_def)
  with store0_campaign_tick show ?thesis by simp
qed

subsection \<open>Campaign admission\<close>

lemma createCampaignMessage_row:
  assumes "createCampaignMessage d now leadId campaignId templateName = Inr (mid, d')"
  shows "\<exists>row. d' = d\<lparr>messages := messages d @ [row]\<rparr> \<and> m_lead_id row = leadId
           \<and> m_campaign_id row = Some campaignId \<and> m_status row = Pending"
  using assms
  by (auto simp: createCampaignMessage_def Let_def split: list.splits sum.splits if_splits)

lemma campaign_loop_messages:
  "campaign_loop ls now campaignId d n = (n', d')
   \<Longrightarrow> \<exists>new. d' = d\<lparr>messages := messages d @ new\<rparr> \<and> length new \<le> length ls
          \<and> n' = n + length new
          \<and> list_all (\<lambda>m. m_campaign_id m = Some campaignId \<and> m_status m = Pending) new"
proof (induction ls arbitrary: d n)
  case Nil
  then show ?case by simp
next
  case (Cons l ls)
  show ?case
  proof (cases "createCampaignMessage d now (l_id l) campaignId None")
    case (Inl e)
    with Cons.prems have "campaign_loop ls now campaignId d n = (n', d')" by simp
    from Cons.IH[OF this] show ?thesis by auto
  next
    case (Inr p)
    obtain mid d1 where p: "p = (mid, d1)" by (cases p)
    from createCampaignMessage_row[OF Inr[unfolded p]] obtain row where
      d1: "d1 = d\<lparr>messages := messages d @ [row]\<rparr>"
      and row: "m_campaign_id row = Some campaignId" "m_status row = Pending"
      by blast
    from Cons.prems Inr p have "campaign_loop ls now campaignId d1 (Suc n) = (n', d')"
      by simp
    from Cons.IH[OF this] obtain new where
      new: "d' = d1\<lparr>messages := messages d1 @ new\<rparr>" "length new \<le> length ls"
        "n' = Suc n + length new"
        "list_all (\<lambda>m. m_campaign_id m = Some campaignId \<and> m_status m = Pending) new"
      by blast
    show ?thesis
      by (rule exI[of _ "row # new"]) (use new row d1 in simp)
  qed
qed

lemma getLeadsForCampaign_limit:
  "getLeadsForCampaign d now campaignId limit = Inr res \<Longrightarrow> length (fl_leads res) \<le> limit"
  by (auto simp: getLeadsForCampaign_def getFilteredLeads_def Let_def split: list.splits)

lemma getLeadsForCampaign_error:
  "getLeadsForCampaign d now campaignId limit = Inl e \<Longrightarrow> e = Campaign_not_found_or_inactive"
  by (auto simp: getLeadsForCampaign_def split: list.splits)

lemma processCampaign_skip:
  assumes "generateLimit d now c \<le> 0"
  shows "processCampaign d now c = Inr (Daily_limit_reached, d)
         \<or> processCampaign d now c = Inr (Hourly_limit_reached, d)"
  using assms by (auto simp: processCampaign_def generateLimit_def Let_def)

lemma processCampaign_admit:
  assumes "0 < generateLimit d now c"
  shows "processCampaign d now c = Inl Campaign_not_found_or_inactive
         \<or> (\<exists>tick d' new. processCampaign d now c = Inr (tick, d')
              \<and> messages d' = messages d @ new
              \<and> int (length new) \<le> generateLimit d now c
              \<and> list_all (\<lambda>m. m_campaign_id m = Some (c_id c) \<and> m_status m = Pending) new)"
proof -
  let ?limit = "nat (generateLimit d now c)"
  have guards: "\<not> todayCount d now c \<ge> js_num (c_daily_limit c)"
    "\<not> thisHourCount d now c \<ge> js_num (c_hourly_limit c)"
    using assms by (auto simp: generateLimit_def Let_def)
  show ?thesis
  proof (cases "getLeadsForCampaign d now (c_id c) ?limit")
    case (Inl e)
    with getLeadsForCampaign_error[OF Inl] guards assms show ?thesis
      by (simp add: processCampaign_def)
  next
    case (Inr res)
    show ?thesis
    proof (cases "fl_leads res = []")
      case True
      with Inr guards assms have "processCampaign d now c = Inr (No_leads, d)"
        by (simp add: processCampaign_def)
      moreover have "messages d = messages d @ []" by simp
      moreover have "int (length ([]::message list)) \<le> generateLimit d now c"
        using assms by simp
      moreover have "list_all (\<lambda>m. m_campaign_id m = Some (c_id c) \<and> m_status m = Pending) []"
        by simp
      ultimately show ?thesis by blast
    next
      case False
      obtain n' d' where loop: "campaign_loop (fl_leads res) now (c_id c) d 0 = (n', d')"
        by (cases "campaign_loop (fl_leads res) now (c_id c) d 0")
      from campaign_loop_messages[OF loop] obtain new where
        new: "d' = d\<lparr>messages := messages d @ new\<rparr>" "length new \<le> length (fl_leads res)"
          "list_all (\<lambda>m. m_campaign_id m = Some (c_id c) \<and> m_status m = Pending) new"
        by auto
      have bound: "int (length new) \<le> generateLimit d now c"
        using new(2) getLeadsForCampaign_limit[OF Inr] assms by linarith
      from Inr False guards assms loop obtain d'' where
        "processCampaign d now c = Inr (Generated n', d'')" "messages d'' = messages d'"
        by (auto simp: processCampaign_def)
      with new(1) have "processCampaign d now c = Inr (Generated n', d'')"
        "messages d'' = messages d @ new"
        by simp_all
      with bound new(3) show ?thesis by blast
    qed
  qed
qed

subsection \<open>C3: the admission capacity of a campaign\<close>

text \<open>
  Claim C3, as amended. For every campaign the capacity of a tick is
  \<open>min(dailyCap - createdToday, hourlyCap - createdThisHour, 50)\<close>, where the messages
  counted are those of the campaign created on the current date and created since the
  start of the current hour, in any status. When this capacity is at most 0 the campaign
  is skipped for the tick, with no error and the store unchanged; otherwise the tick adds
  at most that many messages, all pending and of the campaign (or throws because the
  campaign is not found active).
\<close>

theorem campaign_admission_capacity:
  "generateLimit d now c
     = min (min (js_num (c_daily_limit c)
                  - int (length (filter (\<lambda>m. m_campaign_id m = Some (c_id c)
                                             \<and> DATE (m_created_at m) = CURRENT_DATE now)
                                  (messages d))))
                (js_num (c_hourly_limit c)
                  - int (length (filter (\<lambda>m. m_campaign_id m = Some (c_id c)
                                             \<and> m_created_at m \<ge> DATE_TRUNC_hour now)
                                  (messages d))))) 50
   \<and> (generateLimit d now c \<le> 0
      \<longrightarrow> processCampaign d now c = Inr (Daily_limit_reached, d)
          \<or> processCampaign d now c = Inr (Hourly_limit_reached, d))
   \<and> (0 < generateLimit d now c
      \<longrightarrow> processCampaign d now c = Inl Campaign_not_found_or_inactive
          \<or> (\<exists>tick d' new. processCampaign d now c = Inr (tick, d')
                \<and> messages d' = messages d @ new
                \<and> int (length new) \<le> generateLimit d now c
                \<and> list_all (\<lambda>m. m_campaign_id m = Some (c_id c) \<and> m_status m = Pending) new))"
proof (intro conjI impI)
  show "generateLimit d now c
     = min (min (js_num (c_daily_limit c)
                  - int (length (filter (\<lambda>m. m_campaign_id m = Some (c_id c)
                                             \<and> DATE (m_created_at m) = CURRENT_DATE now)
                                  (messages d))))
                (js_num (c_hourly_limit c)
                  - int (length (filter (\<lambda>m. m_campaign_id m = Some (c_id c)
                                             \<and> m_created_at m \<ge> DATE_TRUNC_hour now)
                                  (messages d))))) 50"
    by (simp add: generateLimit_def todayCount_def thisHourCount_def Let_def)
next
  assume "generateLimit d now c \<le> 0"
  then show "processCampaign d now c = Inr (Daily_limit_reached, d)
          \<or> processCampaign d now c = Inr (Hourly_limit_reached, d)"
    by (rule processCampaign_skip)
next
  assume "0 < generateLimit d now c"
  then show "processCampaign d now c = Inl Campaign_not_found_or_inactive
          \<or> (\<exists>tick d' new. processCampaign d now c = Inr (tick, d')
                \<and> messages d' = messages d @ new
                \<and> int (length new) \<le> generateLimit d now c
                \<and> list_all (\<lambda>m. m_campaign_id m = Some (c_id c) \<and> m_status m = Pending) new)"
    by (rule processCampaign_admit)
qed

lemma tight_store_evaluation:
  "generateLimit tight_store day2 tight_campaign = 0"
  "spec_admit tight_store day2 tight_campaign = 1"
  "processCampaign tight_store day2 tight_campaign = Inr (Hourly_limit_reached, tight_store)"
  by (simp_all add: generateLimit_def spec_admit_def processCampaign_def todayCount_def
      thisHourCount_def tight_store_def tight_campaign_def store1_def store0_def
      email_sequence_def pending_email_def day2_def DATE_def CURRENT_DATE_def
      DATE_TRUNC_hour_def DATE_TRUNC_day_def ms_per_day_def ms_per_hour_def Let_def)

lemma store0_admission:
  "generateLimit store0 day2 email_sequence = 10"
  "processCampaign store0 day2 email_sequence = Inr (No_leads, store0)"
  by (simp_all add: generateLimit_def processCampaign_def todayCount_def thisHourCount_def
      getLeadsForCampaign_def getFilteredLeads_def campaign_filters_def buildWhereClause_def
      order_by_def is_ASC_def store0_def acme_def email_sequence_def day2_def
      CURRENT_DATE_def ms_per_day_def Let_def)

theorem campaign_admission_capacity_witness:
  "generateLimit tight_store day2 tight_campaign = 0
   \<and> processCampaign tight_store day2 tight_campaign = Inr (Hourly_limit_reached, tight_store)
   \<and> generateLimit store0 day2 email_sequence = 10
   \<and> (\<exists>tick d' new. processCampaign store0 day2 email_sequence = Inr (tick, d')
         \<and> messages d' = messages store0 @ new \<and> int (length new) \<le> 10)"
proof -
  from campaign_admission_capacity[of tight_store day2 tight_campaign] tight_store_evaluation(1)
  have "processCampaign tight_store day2 tight_campaign = Inr (Daily_limit_reached, tight_store)
        \<or> processCampaign tight_store day2 tight_campaign = Inr (Hourly_limit_reached, tight_store)"
    by simp
  then have skip: "processCampaign tight_store day2 tight_campaign
                     = Inr (Hourly_limit_reached, tight_store)"
    using tight_store_evaluation(3) by simp
  from campaign_admission_capacity[of store0 day2 email_sequence] store0_admission
  have "\<exists>tick d' new. processCampaign store0 day2 email_sequence = Inr (tick, d')
         \<and> messages d' = messages store0 @ new \<and> int (length new) \<le> 10"
    by auto
  with skip tight_store_evaluation(1) store0_admission(1) show ?thesis by blast
qed

text \<open>
  The claim as stated fails: the messages counted are those created, not those sent or
  delivered. With an hourly limit of one and one message of the campaign created in the
  current hour and still pending, the capacity is 0 and the campaign is skipped, where
  counting sent and delivered messages gives a capacity of 1.
\<close>

theorem admission_counts_created_messages:
  "generateLimit tight_store day2 tight_campaign = 0
   \<and> spec_admit tight_store day2 tight_campaign = 1
   \<and> processCampaign tight_store day2 tight_campaign = Inr (Hourly_limit_reached, tight_store)"
  using tight_store_evaluation by simp


subsection \<open>C5: the rate counters and the store\<close>

text \<open>
  Claim C5, as amended. At process start (\<open>start\<close>, through \<open>resetCounters\<close>) the hourly
  and daily counters are set to the counts derived from the store: the messages with
  status sent or delivered whose \<open>sent_at\<close> lies in the current hour, and in the current
  day. At an hour boundary \<open>resetHourlyCounter\<close> sets the hourly counter to 0, and at a day
  boundary \<open>resetDailyCounter\<close> sets the daily counter to 0, without reading the store and
  leaving the other counter as it is; after such a reset the counter equals the count
  derived from the store exactly when that count is 0.
\<close>

theorem counters_reconciled_at_start_only:
  "hourlyMessageCount (start w loaded d now) = hourly_store_count d now
   \<and> dailyMessageCount (start w loaded d now) = daily_store_count d now
   \<and> hourlyMessageCount (resetCounters w d now) = hourly_store_count d now
   \<and> dailyMessageCount (resetCounters w d now) = daily_store_count d now
   \<and> hourlyMessageCount (resetHourlyCounter w now) = 0
   \<and> dailyMessageCount (resetHourlyCounter w now) = dailyMessageCount w
   \<and> dailyMessageCount (resetDailyCounter w now) = 0
   \<and> hourlyMessageCount (resetDailyCounter w now) = hourlyMessageCount w
   \<and> (hourlyMessageCount (resetHourlyCounter w now) = hourly_store_count d now)
       = (hourly_store_count d now = 0)
   \<and> (dailyMessageCount (resetDailyCounter w now) = daily_store_count d now)
       = (daily_store_count d now = 0)"
  by (auto simp: start_def resetCounters_def resetHourlyCounter_def resetDailyCounter_def Let_def)

text \<open>
  The claim as stated fails at a boundary reset: one second after a message was sent at
  the first instant of the hour and of the day, the resets leave both counters at 0 while
  the store counts one message for the hour and for the day.
\<close>

theorem boundary_reset_ignores_store:
  "hourlyMessageCount (resetHourlyCounter (new_worker day2) (day2 + 1000)) = 0
   \<and> hourly_store_count sent_store (day2 + 1000) = 1
   \<and> dailyMessageCount (resetDailyCounter (new_worker day2) (day2 + 1000)) = 0
   \<and> daily_store_count sent_store (day2 + 1000) = 1"
  by (simp add: resetHourlyCounter_def resetDailyCounter_def new_worker_def
      hourly_store_count_def daily_store_count_def sent_store_def store0_def pending_email_def
      day2_def DATE_TRUNC_hour_def DATE_TRUNC_day_def ms_per_hour_def ms_per_day_def)

subsection \<open>Provider invocations of a dispatch\<close>

declare SMSService_sendWithRetry.simps [simp del]
declare EmailService_sendWithRetry.simps [simp del]




















subsection \<open>C7: provider invocations and failed messages\<close>








subsection \<open>C10: the status written at the start of a send\<close>

lemma sending_rejected:
  assumes "Sending \<notin> set (status_check d)"
    and "filter (\<lambda>m. m_id m = mid) (messages d) \<noteq> []"
  shows "update_messages (\<lambda>m. m_id m = mid) (mark_sending now) d
           = Inl (Check_violation ''messages_status_check'')"
proof -
  from assms(2) obtain m where "m \<in> set (filter (\<lambda>m. m_id m = mid) (messages d))"
    by (cases "filter (\<lambda>m. m_id m = mid) (messages d)") auto
  moreover have "m_status (mark_sending now m) = Sending"
    by (simp add: mark_sending_def)
  ultimately have "\<not> list_all (\<lambda>m. m_status (mark_sending now m) \<in> set (status_check d))
                      (filter (\<lambda>m. m_id m = mid) (messages d))"
    using assms(1) unfolding list_all_iff by metis
  then show ?thesis by (simp add: update_messages_def)
qed

text \<open>
  Under the constraint that the schema declares, a dispatch of any SMS message that has a
  recipient phone number fails at its first write: the provider is never invoked.
\<close>

lemma sendSMS_try_under_schema:
  assumes "status_check d = messages_status_check"
    and "filter (\<lambda>m. m_id m = mid) (messages d) = message # rest"
    and "m_message_type message = Sms" and "truthy (m_recipient_phone message)"
  shows "sendSMS_try sp d now mid = (Inl (Check_violation ''messages_status_check''), d, 0)"
proof -
  have "Sending \<notin> set (status_check d)"
    by (simp add: assms(1) messages_status_check_def)
  from sending_rejected[OF this, of mid now] assms(2,3,4) show ?thesis
    by (simp add: sendSMS_try_def)
qed

text \<open>
  Claim C10 fails on the code. The constraint \<open>messages_status_check\<close> does not admit the
  status \<open>'sending'\<close> that \<open>sendSMS\<close> and \<open>sendEmail\<close> write first: in a store under that
  constraint the dispatch of a pending SMS message with a phone number, and of a pending
  email message with an address and a subject, is rejected by the store at that write,
  the provider is not invoked, and the message ends in status failed with the constraint
  violation as its failure reason.
\<close>

theorem sending_status_violates_schema:
  "Sending \<notin> set messages_status_check
   \<and> sendSMS sp sms_store day2 1
       = (Failure (Check_violation ''messages_status_check''),
          sms_store\<lparr>messages :=
            [pending_sms\<lparr>m_status := Failed, m_failed_at := Some day2,
               m_failure_reason :=
                 Some (error_message (Check_violation ''messages_status_check'')),
               m_updated_at := day2\<rparr>]\<rparr>, 0)
   \<and> sendEmail True ep store1 day2 1
       = (Failure (Check_violation ''messages_status_check''),
          store1\<lparr>messages :=
            [pending_email\<lparr>m_status := Failed, m_failed_at := Some day2,
               m_failure_reason :=
                 Some (error_message (Check_violation ''messages_status_check'')),
               m_updated_at := day2\<rparr>]\<rparr>, 0)"
  by (simp add: sendSMS_def sendSMS_try_def sendEmail_def sendEmail_try_def send_catch_def
      update_messages_def sms_store_def store1_def store0_def pending_sms_def
      pending_email_def messages_status_check_def mark_sending_def mark_failed_def)


subsection \<open>C8: the health check\<close>








subsection \<open>An observation on campaign targeting\<close>

text \<open>
  \<open>getLeadsForCampaign\<close> passes no registration window of its own, so the defaults of
  \<open>buildWhereClause\<close> apply: registered at most 1 day ago (\<open>minRegistrationDays\<close>) and at
  least 365 days ago (\<open>maxRegistrationDays\<close>). No date is both, and the function returns
  no lead, whatever the store. The lead query of \<open>processSingleSequenceCampaign\<close> does not
  go through \<open>buildWhereClause\<close> and is not affected.
\<close>

lemma getLeadsForCampaign_selects_no_lead:
  assumes "getLeadsForCampaign d now campaignId limit = Inr res"
  shows "fl_leads res = [] \<and> fl_total res = 0"
proof -
  from assms obtain c where res: "res = getFilteredLeads d now (campaign_filters c)
                 \<lparr> o_limit = limit, o_offset = 0, o_orderBy = ''registration_date'',
                   o_orderDirection = ''ASC'' \<rparr>"
    by (auto simp: getLeadsForCampaign_def split: list.splits)
  have "\<not> buildWhereClause d now (campaign_filters c) l" for l
  proof (cases "l_registration_date l")
    case None
    then show ?thesis by (simp add: buildWhereClause_def campaign_filters_def)
  next
    case (Some r)
    have "\<not> (r \<ge> CURRENT_DATE now - 1 \<and> r \<le> CURRENT_DATE now - 365)" by arith
    with Some show ?thesis by (auto simp: buildWhereClause_def campaign_filters_def)
  qed
  then have "filter (buildWhereClause d now (campaign_filters c)) (leads d) = []"
    by (simp add: filter_empty_conv)
  then show ?thesis
    by (simp add: res getFilteredLeads_def Let_def order_by_def)
qed

end
